theory Spec2Isabelle
  imports Complex_Main "HOL-Library.Word"
begin

unbundle bit_operations_syntax

section \<open>Element arithmetic\<close>

text \<open>
  The element type of the three buffers is the build parameter \<open>STREAM_TYPE\<close>
  (\<open>double\<close> unless overridden, \<open>float\<close> with \<open>-DSTREAM_TYPE=float\<close>). The
  kernels and the validator are written once for both; they are embedded over an
  arbitrary carrier \<open>'a\<close> with the operations of the element type given as a record.
  Nothing is assumed about the operations (no associativity, no exactness, no order
  laws), so every statement proved for all \<open>T\<close> holds for IEEE arithmetic with its
  rounding as well as for exact arithmetic.

  \<open>flit T q\<close> is the element the compiler produces for the decimal literal of value
  \<open>q\<close> (\<open>1.0\<close>, \<open>2.0E0\<close>, \<open>1.e-13\<close>), \<open>of_ssize T n\<close> is the cast
  \<open>(STREAM_TYPE) n\<close> of an \<open>ssize_t\<close>.
\<close>

record 'a stream_type =
  sizeof :: nat
  flit :: "rat \<Rightarrow> 'a"
  of_ssize :: "int \<Rightarrow> 'a"
  fadd :: "'a \<Rightarrow> 'a \<Rightarrow> 'a"
  fsub :: "'a \<Rightarrow> 'a \<Rightarrow> 'a"
  fmul :: "'a \<Rightarrow> 'a \<Rightarrow> 'a"
  fdiv :: "'a \<Rightarrow> 'a \<Rightarrow> 'a"
  fneg :: "'a \<Rightarrow> 'a"
  fge :: "'a \<Rightarrow> 'a \<Rightarrow> bool"
  fgt :: "'a \<Rightarrow> 'a \<Rightarrow> bool"

text \<open>Exact arithmetic on the reals, with 8-byte elements: the idealised \<open>double\<close>.\<close>

definition real_double :: "real stream_type" where
  "real_double = \<lparr>sizeof = 8, flit = of_rat, of_ssize = of_int,
     fadd = (+), fsub = (-), fmul = (*), fdiv = (/), fneg = uminus,
     fge = (\<ge>), fgt = (>)\<rparr>"

section \<open>The three buffers and the kernels\<close>

text \<open>
  The globals \<open>a\<close>, \<open>b\<close>, \<open>c\<close> point to buffers of \<open>stream_array_size\<close> elements
  each. A buffer is a list; the three lists are the program state of the kernels.
\<close>

record 'a arrays =
  a :: "'a list"
  b :: "'a list"
  c :: "'a list"

definition allocated :: "nat \<Rightarrow> 'a arrays \<Rightarrow> bool" where
  "allocated n s \<longleftrightarrow> length (a s) = n \<and> length (b s) = n \<and> length (c s) = n"

text \<open>Lines 346-352: \<open>for (j=0; j<stream_array_size; j++) { a[j] = 1.0; b[j] = 2.0; c[j] = 0.0; }\<close>\<close>

definition init_arrays :: "'a stream_type \<Rightarrow> nat \<Rightarrow> 'a arrays \<Rightarrow> 'a arrays" where
  "init_arrays T n s0 =
     fold (\<lambda>j s. s\<lparr>a := (a s)[j := flit T 1], b := (b s)[j := flit T 2],
                    c := (c s)[j := flit T 0]\<rparr>) [0..<n] s0"

text \<open>Lines 372-376: \<open>for (j = 0; j < stream_array_size; j++) a[j] = 2.0E0 * a[j];\<close>\<close>

definition warmup :: "'a stream_type \<Rightarrow> nat \<Rightarrow> 'a arrays \<Rightarrow> 'a arrays" where
  "warmup T n s0 =
     fold (\<lambda>j s. s\<lparr>a := (a s)[j := fmul T (flit T 2) (a s ! j)]\<rparr>) [0..<n] s0"

text \<open>Lines 402-406 (and \<open>tuned_STREAM_Copy\<close>): \<open>c[j] = a[j];\<close>\<close>

definition STREAM_Copy :: "nat \<Rightarrow> 'a arrays \<Rightarrow> 'a arrays" where
  "STREAM_Copy n s0 = fold (\<lambda>j s. s\<lparr>c := (c s)[j := a s ! j]\<rparr>) [0..<n] s0"

text \<open>Lines 415-419 (and \<open>tuned_STREAM_Scale\<close>): \<open>b[j] = scalar*c[j];\<close>\<close>

definition STREAM_Scale :: "'a stream_type \<Rightarrow> 'a \<Rightarrow> nat \<Rightarrow> 'a arrays \<Rightarrow> 'a arrays" where
  "STREAM_Scale T scalar n s0 =
     fold (\<lambda>j s. s\<lparr>b := (b s)[j := fmul T scalar (c s ! j)]\<rparr>) [0..<n] s0"

text \<open>Lines 428-432 (and \<open>tuned_STREAM_Add\<close>): \<open>c[j] = a[j]+b[j];\<close>\<close>

definition STREAM_Add :: "'a stream_type \<Rightarrow> nat \<Rightarrow> 'a arrays \<Rightarrow> 'a arrays" where
  "STREAM_Add T n s0 =
     fold (\<lambda>j s. s\<lparr>c := (c s)[j := fadd T (a s ! j) (b s ! j)]\<rparr>) [0..<n] s0"

text \<open>Lines 441-445 (and \<open>tuned_STREAM_Triad\<close>): \<open>a[j] = b[j]+scalar*c[j];\<close>\<close>

definition STREAM_Triad :: "'a stream_type \<Rightarrow> 'a \<Rightarrow> nat \<Rightarrow> 'a arrays \<Rightarrow> 'a arrays" where
  "STREAM_Triad T scalar n s0 =
     fold (\<lambda>j s. s\<lparr>a := (a s)[j := fadd T (b s ! j) (fmul T scalar (c s ! j))]\<rparr>) [0..<n] s0"

text \<open>
  Lines 394-448, the effect on the buffers of the main loop:
  \<open>scalar = 3.0; for (k=0; k<NTIMES; k++) { Copy; Scale; Add; Triad }\<close>.
  The clock readings around each kernel do not touch the buffers; they are
  embedded separately below.
\<close>

definition kernel_round :: "'a stream_type \<Rightarrow> 'a \<Rightarrow> nat \<Rightarrow> 'a arrays \<Rightarrow> 'a arrays" where
  "kernel_round T scalar n s =
     STREAM_Triad T scalar n (STREAM_Add T n (STREAM_Scale T scalar n (STREAM_Copy n s)))"

definition main_loop :: "'a stream_type \<Rightarrow> nat \<Rightarrow> nat \<Rightarrow> 'a arrays \<Rightarrow> 'a arrays" where
  "main_loop T NTIMES n s0 =
     (let scalar = flit T 3 in fold (\<lambda>k s. kernel_round T scalar n s) [0..<NTIMES] s0)"

text \<open>The buffers as \<open>checkSTREAMresults\<close> finds them: initialisation, warm-up, main loop.\<close>

definition executor :: "'a stream_type \<Rightarrow> nat \<Rightarrow> nat \<Rightarrow> 'a arrays \<Rightarrow> 'a arrays" where
  "executor T NTIMES n s0 = main_loop T NTIMES n (warmup T n (init_arrays T n s0))"

text \<open>
  Lines 570-584 of \<open>checkSTREAMresults\<close>, the scalar replay:
  \<open>aj = 1.0; bj = 2.0; cj = 0.0; aj = 2.0E0 * aj; scalar = 3.0;
  for (k=0; k<NTIMES; k++) { cj = aj; bj = scalar*cj; cj = aj+bj; aj = bj+scalar*cj; }\<close>
\<close>

definition replay_round :: "'a stream_type \<Rightarrow> 'a \<Rightarrow> 'a \<times> 'a \<times> 'a \<Rightarrow> 'a \<times> 'a \<times> 'a" where
  "replay_round T scalar = (\<lambda>(aj, bj, cj).
     let cj = aj;
         bj = fmul T scalar cj;
         cj = fadd T aj bj;
         aj = fadd T bj (fmul T scalar cj)
     in (aj, bj, cj))"

definition replay :: "'a stream_type \<Rightarrow> nat \<Rightarrow> 'a \<times> 'a \<times> 'a" where
  "replay T NTIMES =
     (let aj = flit T 1; bj = flit T 2; cj = flit T 0;
          aj = fmul T (flit T 2) aj;
          scalar = flit T 3
      in fold (\<lambda>k v. replay_round T scalar v) [0..<NTIMES] (aj, bj, cj))"

text \<open>A state in which each buffer holds one value at every index.\<close>

definition const_arrays :: "nat \<Rightarrow> 'a \<times> 'a \<times> 'a \<Rightarrow> 'a arrays" where
  "const_arrays n = (\<lambda>(x, y, z). \<lparr>a = replicate n x, b = replicate n y, c = replicate n z\<rparr>)"

definition uniform :: "nat \<Rightarrow> 'a arrays \<Rightarrow> bool" where
  "uniform n s \<longleftrightarrow> (\<forall>i \<in> {0..<n}. \<forall>j \<in> {0..<n}.
     a s ! i = a s ! j \<and> b s ! i = b s ! j \<and> c s ! i = c s ! j)"


section \<open>The validator\<close>

text \<open>Line 559: \<open>#define abs(a) ((a) >= 0 ? (a) : -(a))\<close>\<close>

definition macro_abs :: "'a stream_type \<Rightarrow> 'a \<Rightarrow> 'a" where
  "macro_abs T x = (if fge T x (flit T 0) then x else fneg T x)"

text \<open>
  Lines 600-609: \<open>epsilon\<close> is 1.e-6 when \<open>sizeof(STREAM_TYPE)\<close> is 4, 1.e-13 when it
  is 8, and 1.e-6 (after a warning) otherwise.
\<close>

definition epsilon_of :: "'a stream_type \<Rightarrow> 'a" where
  "epsilon_of T =
     (if sizeof T = 4 then flit T (1 / 10 ^ 6)
      else if sizeof T = 8 then flit T (1 / 10 ^ 13)
      else flit T (1 / 10 ^ 6))"

text \<open>
  What \<open>checkSTREAMresults\<close> prints: for each buffer nothing when it passes and the
  number \<open>ierr\<close> of the "errors were found" line when it fails, the number \<open>err\<close> of
  failed buffers, and whether the "Solution Validates" line appears. \<open>ierr\<close> and
  \<open>err\<close> are \<open>int\<close>: 32-bit words, read with \<open>sint\<close> when printed.
\<close>

record validation =
  a_report :: "int option"
  b_report :: "int option"
  c_report :: "int option"
  err :: int
  validates :: bool

text \<open>
  Lines 616-627 (and 635-646, 654-665), the loop that counts for a failed buffer:
  \<open>ierr = 0; for (j=0; j<stream_array_size; j++) if (abs(a[j]/aj-1.0) > epsilon) ierr++;\<close>
\<close>

definition count_errors :: "'a stream_type \<Rightarrow> 'a \<Rightarrow> nat \<Rightarrow> 'a list \<Rightarrow> 'a \<Rightarrow> 32 word" where
  "count_errors T epsilon n xs xj =
     fold (\<lambda>j ierr. if fgt T (macro_abs T (fsub T (fdiv T (xs ! j) xj) (flit T 1))) epsilon
                      then ierr + 1 else ierr) [0..<n] 0"

text \<open>
  Lines 561-670. The replay of lines 570-584 gives \<open>aj\<close>, \<open>bj\<close>, \<open>cj\<close>; lines
  587-598 sum the absolute deviations of the three buffers in one loop and divide by
  \<open>(STREAM_TYPE) stream_array_size\<close>; lines 611-670 test each buffer in turn.
\<close>

definition checkSTREAMresults :: "'a stream_type \<Rightarrow> nat \<Rightarrow> nat \<Rightarrow> 'a arrays \<Rightarrow> validation" where
  "checkSTREAMresults T NTIMES stream_array_size s =
     (let (aj, bj, cj) = replay T NTIMES;
          (aSumErr, bSumErr, cSumErr) =
             fold (\<lambda>j (aSumErr, bSumErr, cSumErr).
                     (fadd T aSumErr (macro_abs T (fsub T (a s ! j) aj)),
                      fadd T bSumErr (macro_abs T (fsub T (b s ! j) bj)),
                      fadd T cSumErr (macro_abs T (fsub T (c s ! j) cj))))
                  [0..<stream_array_size] (flit T 0, flit T 0, flit T 0);
          aAvgErr = fdiv T aSumErr (of_ssize T (int stream_array_size));
          bAvgErr = fdiv T bSumErr (of_ssize T (int stream_array_size));
          cAvgErr = fdiv T cSumErr (of_ssize T (int stream_array_size));
          epsilon = epsilon_of T;
          err = (0 :: 32 word);
          (err, ra) = (if fgt T (macro_abs T (fdiv T aAvgErr aj)) epsilon
                       then (err + 1, Some (sint (count_errors T epsilon stream_array_size (a s) aj)))
                       else (err, None));
          (err, rb) = (if fgt T (macro_abs T (fdiv T bAvgErr bj)) epsilon
                       then (err + 1, Some (sint (count_errors T epsilon stream_array_size (b s) bj)))
                       else (err, None));
          (err, rc) = (if fgt T (macro_abs T (fdiv T cAvgErr cj)) epsilon
                       then (err + 1, Some (sint (count_errors T epsilon stream_array_size (c s) cj)))
                       else (err, None))
      in \<lparr>a_report = ra, b_report = rb, c_report = rc, err = sint err, validates = (err = 0)\<rparr>)"

text \<open>
  The same quantities as section 4.5 of the specification words them, one buffer at a time:
  the average absolute error, the failure test, and the indices that deviate.
\<close>

definition avgAbsErr :: "'a stream_type \<Rightarrow> nat \<Rightarrow> 'a list \<Rightarrow> 'a \<Rightarrow> 'a" where
  "avgAbsErr T elementCount observed expected =
     fdiv T (foldl (fadd T) (flit T 0)
               (map (\<lambda>i. macro_abs T (fsub T (observed ! i) expected)) [0..<elementCount]))
            (of_ssize T (int elementCount))"

definition buffer_failed :: "'a stream_type \<Rightarrow> nat \<Rightarrow> 'a list \<Rightarrow> 'a \<Rightarrow> bool" where
  "buffer_failed T elementCount observed expected \<longleftrightarrow>
     fgt T (macro_abs T (fdiv T (avgAbsErr T elementCount observed expected) expected)) (epsilon_of T)"

definition deviating :: "'a stream_type \<Rightarrow> nat \<Rightarrow> 'a list \<Rightarrow> 'a \<Rightarrow> nat list" where
  "deviating T elementCount observed expected =
     filter (\<lambda>i. fgt T (macro_abs T (fsub T (fdiv T (observed ! i) expected) (flit T 1))) (epsilon_of T))
       [0..<elementCount]"

text \<open>An element count at which the \<open>int\<close> counter \<open>ierr\<close> leaves its range.\<close>

definition two_gi :: nat where
  "two_gi = 2 ^ 31"

section \<open>Provisioning, the run and its teardown\<close>

text \<open>
  Sizes and offsets are \<open>ssize_t\<close>, a signed 64-bit integer: a \<open>64 word\<close>, read with
  \<open>sint\<close> where the code compares it with 0, with the wrap-around of the machine where
  the code adds or multiplies. Line 264:
  \<open>buffer_size = (buffer_size+4095)&(~0xFFF);\<close>
\<close>

definition page_round :: "64 word \<Rightarrow> 64 word" where
  "page_round buffer_size = (buffer_size + 4095) AND NOT 0xFFF"

text \<open>The defaults of lines 102-104 and 132-134, and \<open>MAP_FAILED\<close>, which is \<open>(void *) -1\<close>.\<close>

definition STREAM_ARRAY_SIZE :: nat where "STREAM_ARRAY_SIZE = 10"
definition OFFSET :: nat where "OFFSET = 0"

definition MAP_FAILED :: "64 word" where "MAP_FAILED = - 1"

text \<open>
  What \<open>main\<close> takes from outside: the value \<open>atoll\<close> and \<open>strtoll(_, NULL, 0)\<close>
  give for an argument string, the descriptor \<open>open(path, O_RDWR)\<close> returns (an
  \<open>int\<close>, negative on failure), the address \<open>mmap\<close> returns for a length, a
  descriptor and an offset, the address the \<open>k\<close>-th call of \<open>aligned_alloc\<close> returns
  (\<open>NULL\<close> is 0), the value the never assigned \<open>fid\<close> happens to hold, and what
  the fresh buffers hold.
\<close>

record 'a env =
  atoll :: "string \<Rightarrow> 64 word"
  strtoll :: "string \<Rightarrow> 64 word"
  open_rdwr :: "string \<Rightarrow> 32 word"
  mmap :: "64 word \<Rightarrow> 32 word \<Rightarrow> 64 word \<Rightarrow> 64 word"
  aligned_alloc :: "nat \<Rightarrow> 64 word \<Rightarrow> 64 word \<Rightarrow> 64 word"
  uninit_fid :: "32 word"
  uninit_mem :: "nat \<Rightarrow> 'a"

text \<open>
  The run as the sequence of what it does to the outside: the usage lines (253-256),
  \<open>open\<close>, the "is not opened" line with the string it prints, \<open>mmap\<close> with length,
  descriptor and offset, \<open>aligned_alloc\<close> with alignment and size, the configuration
  banner (296-322) with the element count, the initialisation, calibration, warm-up and
  main loop (344-448), the summary table (452-472), \<open>checkSTREAMresults\<close> with what it
  found, \<open>munmap\<close> with address and length, \<open>free\<close>, \<open>close\<close>. A run ends by
  returning a status or by the fault of a store through a pointer that is no buffer.
\<close>

datatype event =
    Usage
  | Open string
  | Not_opened string
  | Mmap "64 word" "32 word" "64 word"
  | Aligned_alloc "64 word" "64 word"
  | Config "64 word"
  | Kernels
  | Summary
  | Check_results validation
  | Munmap "64 word" "64 word"
  | Free "64 word"
  | Close "32 word"

datatype outcome = Exit int | Segfault

text \<open>Lines 244 and 251: \<open>(STREAM_ARRAY_SIZE+OFFSET)*sizeof(STREAM_TYPE)\<close>.\<close>

definition default_buffer_size :: "'a stream_type \<Rightarrow> 64 word" where
  "default_buffer_size T = of_nat ((STREAM_ARRAY_SIZE + OFFSET) * sizeof T)"

text \<open>
  Lines 251-264:
  \<open>if ( argc > 1 ) { buffer_size = atoll(argv[1]); if ( buffer_size <= 0 ) buffer_size = default; }\<close>
  and then the rounding.
\<close>

definition main_buffer_size :: "'a stream_type \<Rightarrow> 'a env \<Rightarrow> string list \<Rightarrow> 64 word" where
  "main_buffer_size T E argv =
     (let argc = length argv;
          buffer_size = default_buffer_size T;
          buffer_size =
            (if argc > 1
             then (let buffer_size = atoll E (argv ! 1)
                   in if sint buffer_size \<le> 0 then default_buffer_size T else buffer_size)
             else buffer_size)
      in page_round buffer_size)"

text \<open>
  Lines 245 and 273-276:
  \<open>if ( argc > 3 ) offset = strtoll(argv[3], NULL, 0); if ( offset <= 0 ) offset = 0x100000000;
  offset = offset & (~0xFFF);\<close>
\<close>

definition main_offset :: "'a env \<Rightarrow> string list \<Rightarrow> 64 word" where
  "main_offset E argv =
     (let argc = length argv;
          offset = 0;
          offset = (if argc > 3 then strtoll E (argv ! 3) else offset);
          offset = (if sint offset \<le> 0 then 0x100000000 else offset)
      in offset AND NOT 0xFFF)"

text \<open>A pointer the program may store through: neither \<open>NULL\<close> nor \<open>MAP_FAILED\<close>.\<close>

definition valid_ptr :: "64 word \<Rightarrow> bool" where
  "valid_ptr p \<longleftrightarrow> p \<noteq> 0 \<and> p \<noteq> MAP_FAILED"

text \<open>
  Lines 292-294: \<open>if ( a == NULL ) a = aligned_alloc (4096, buffer_size);\<close> and the same for
  \<open>b\<close> and \<open>c\<close>; \<open>k\<close> counts the calls made so far.
\<close>

definition heap_alloc ::
  "'a env \<Rightarrow> 64 word \<Rightarrow> 64 word \<times> 64 word \<times> 64 word
     \<Rightarrow> (64 word \<times> 64 word \<times> 64 word) \<times> event list" where
  "heap_alloc E buffer_size = (\<lambda>(a, b, c).
     let (a, k, ev) = (if a = 0 then (aligned_alloc E 0 4096 buffer_size, Suc 0,
                                      [Aligned_alloc 4096 buffer_size])
                       else (a, 0, []));
         (b, k, ev) = (if b = 0 then (aligned_alloc E k 4096 buffer_size, Suc k,
                                      ev @ [Aligned_alloc 4096 buffer_size])
                       else (b, k, ev));
         (c, k, ev) = (if c = 0 then (aligned_alloc E k 4096 buffer_size, Suc k,
                                      ev @ [Aligned_alloc 4096 buffer_size])
                       else (c, k, ev))
     in ((a, b, c), ev))"

text \<open>
  Lines 479-484:
  \<open>if ( argc > 1 ) { munmap(a, buffer_size); munmap(b, buffer_size); munmap(c, buffer_size);
  if ( fid ) close(fid); }\<close>
\<close>

definition teardown :: "nat \<Rightarrow> 32 word \<Rightarrow> 64 word \<Rightarrow> 64 word \<times> 64 word \<times> 64 word \<Rightarrow> event list" where
  "teardown argc fid buffer_size = (\<lambda>(a, b, c).
     if argc > 1
     then [Munmap a buffer_size, Munmap b buffer_size, Munmap c buffer_size]
          @ (if fid \<noteq> 0 then [Close fid] else [])
     else [])"

text \<open>
  Lines 266 and 292-486, once the pointers \<open>a\<close>, \<open>b\<close>, \<open>c\<close> and \<open>fid\<close> are what the
  device branch left them. \<open>stream_array_size = buffer_size/sizeof(STREAM_TYPE)\<close> divides
  by a \<open>size_t\<close>, so unsigned. The first stores are those of the initialisation loop,
  which runs when \<open>stream_array_size\<close> is positive; they fault when a pointer is no
  buffer. Otherwise the kernels run on the buffers, the table is printed,
  \<open>checkSTREAMresults\<close> is called, the teardown block runs and \<open>main\<close> returns 0.
  The calibration is taken to return here; it is embedded on its own below.
\<close>

definition main_body ::
  "'a stream_type \<Rightarrow> nat \<Rightarrow> 'a env \<Rightarrow> nat \<Rightarrow> 64 word \<Rightarrow> 32 word
     \<Rightarrow> 64 word \<times> 64 word \<times> 64 word \<Rightarrow> event list \<times> outcome" where
  "main_body T NTIMES E argc buffer_size fid ptrs =
     (let stream_array_size = buffer_size div of_nat (sizeof T);
          ((a, b, c), allocs) = heap_alloc E buffer_size ptrs;
          n = nat (sint stream_array_size)
      in if 0 < n \<and> \<not> (valid_ptr a \<and> valid_ptr b \<and> valid_ptr c)
         then (allocs @ [Config stream_array_size], Segfault)
         else
           (let s0 = \<lparr>arrays.a = map (uninit_mem E) [0..<n], b = map (uninit_mem E) [0..<n],
                       c = map (uninit_mem E) [0..<n]\<rparr>;
                s = executor T NTIMES n s0
            in (allocs @ [Config stream_array_size, Kernels, Summary,
                          Check_results (checkSTREAMresults T NTIMES n s)]
                  @ teardown argc fid buffer_size (a, b, c),
                Exit 0)))"

text \<open>
  Lines 236-290: usage lines, sizes, and for \<open>argc > 2\<close> the device branch:
  \<open>fid = open(argv[2], O_RDWR); if (fid < 0) { printf("%s is not opened\n", argv[1]); return 0; }\<close>
  followed by the three calls of \<open>mmap\<close>, whose results are not tested. Without a device
  path \<open>a\<close>, \<open>b\<close>, \<open>c\<close> are still \<open>NULL\<close> and \<open>fid\<close> was never assigned.
\<close>

definition main :: "'a stream_type \<Rightarrow> nat \<Rightarrow> 'a env \<Rightarrow> string list \<Rightarrow> event list \<times> outcome" where
  "main T NTIMES E argv =
     (let argc = length argv;
          buffer_size = main_buffer_size T E argv
      in if argc > 2
         then
           (let offset = main_offset E argv;
                fid = open_rdwr E (argv ! 2)
            in if sint fid < 0
               then ([Usage, Open (argv ! 2), Not_opened (argv ! 1)], Exit 0)
               else
                 (let a = mmap E buffer_size fid offset;
                      b = mmap E buffer_size fid (offset + buffer_size);
                      c = mmap E buffer_size fid (offset + 2 * buffer_size);
                      (tr, out) = main_body T NTIMES E argc buffer_size fid (a, b, c)
                  in ([Usage, Open (argv ! 2),
                       Mmap buffer_size fid offset,
                       Mmap buffer_size fid (offset + buffer_size),
                       Mmap buffer_size fid (offset + 2 * buffer_size)] @ tr, out)))
         else
           (let (tr, out) = main_body T NTIMES E argc buffer_size (uninit_fid E) (0, 0, 0)
            in (Usage # tr, out)))"

text \<open>
  An environment for concrete runs: \<open>/dev/mem\<close> opens as descriptor 3 and nothing else
  opens, mappings and allocations succeed.
\<close>

definition env0 :: "real env" where
  "env0 = \<lparr>atoll = (\<lambda>s. if s = ''4096'' then 4096 else 0),
           strtoll = (\<lambda>s. if s = ''0x200000123'' then 0x200000123 else 0),
           open_rdwr = (\<lambda>p. if p = ''/dev/mem'' then 3 else - 1),
           mmap = (\<lambda>len fd off. 0x7000000000 + off),
           aligned_alloc = (\<lambda>k al sz. 0x10000 + of_nat k * sz),
           uninit_fid = 0x5A5A,
           uninit_mem = (\<lambda>i. 0)\<rparr>"


fun is_release :: "event \<Rightarrow> bool" where
  "is_release (Munmap p len) = True"
| "is_release (Free p) = True"
| "is_release (Close fd) = True"
| "is_release e = False"

text \<open>The same environment, but every \<open>mmap\<close> fails.\<close>

definition env_mmap_fails :: "real env" where
  "env_mmap_fails = env0\<lparr>mmap := (\<lambda>len fd off. MAP_FAILED)\<rparr>"

text \<open>The same environment with an \<open>atoll\<close> that also reads two sizes that are no page multiples.\<close>

definition env1 :: "real env" where
  "env1 = env0\<lparr>atoll := (\<lambda>s. if s = ''5000'' then 5000
                            else if s = ''80000000'' then 80000000 else 0)\<rparr>"

section \<open>Clock, timing table and summary\<close>

text \<open>
  Lines 177-182: \<open>MIN(x,y) ((x)<(y)?(x):(y))\<close> and \<open>MAX(x,y) ((x)>(y)?(x):(y))\<close>.
\<close>

definition macro_MIN :: "'a::ord \<Rightarrow> 'a \<Rightarrow> 'a" where
  "macro_MIN x y = (if x < y then x else y)"

definition macro_MAX :: "'a::ord \<Rightarrow> 'a \<Rightarrow> 'a" where
  "macro_MAX x y = (if x > y then x else y)"

text \<open>
  Lines 539-554: \<open>mysecond\<close> reads the cycle counter (\<open>uintptr_t\<close>, 64 bits) and
  returns \<open>(double)clockcounter / CLOCK_PER_SEC\<close> with \<open>CLOCK_PER_SEC\<close> 100000000. The
  counter is outside the program: \<open>rdcycle k\<close> is the value its \<open>k\<close>-th reading
  returns, and the code that reads it passes the number of readings made so far along.
  A \<open>double\<close> is a real number here.
\<close>

definition CLOCK_PER_SEC :: real where
  "CLOCK_PER_SEC = 100000000"

definition mysecond :: "64 word \<Rightarrow> real" where
  "mysecond clockcounter = real (unat clockcounter) / CLOCK_PER_SEC"

text \<open>
  Lines 397-447: around kernel \<open>j\<close> of repetition \<open>k\<close>,
  \<open>times[j][k] = mysecond(); ...; times[j][k] = mysecond() - times[j][k];\<close>
  and the main loop does so for kernels 0 to 3 in each repetition.
\<close>

record timing =
  reads :: nat
  times :: "nat \<Rightarrow> nat \<Rightarrow> real"

definition time_kernel :: "(nat \<Rightarrow> 64 word) \<Rightarrow> nat \<Rightarrow> nat \<Rightarrow> timing \<Rightarrow> timing" where
  "time_kernel rdcycle j k st =
     (let st = st\<lparr>times := (times st)(j := (times st j)(k := mysecond (rdcycle (reads st)))),
                  reads := Suc (reads st)\<rparr>;
          st = st\<lparr>times := (times st)(j := (times st j)(k := mysecond (rdcycle (reads st)) - times st j k)),
                  reads := Suc (reads st)\<rparr>
      in st)"

definition main_loop_times :: "(nat \<Rightarrow> 64 word) \<Rightarrow> nat \<Rightarrow> timing \<Rightarrow> timing" where
  "main_loop_times rdcycle NTIMES st0 =
     fold (\<lambda>k st. time_kernel rdcycle 3 k (time_kernel rdcycle 2 k
                      (time_kernel rdcycle 1 k (time_kernel rdcycle 0 k st))))
       [0..<NTIMES] st0"

text \<open>
  The time between the two clock readings around kernel \<open>j\<close> in repetition \<open>k\<close>, when the
  main loop starts at reading number \<open>n0\<close>: eight readings a repetition, two a kernel.
\<close>

definition elapsed :: "(nat \<Rightarrow> 64 word) \<Rightarrow> nat \<Rightarrow> nat \<Rightarrow> nat \<Rightarrow> real" where
  "elapsed rdcycle n0 j k =
     mysecond (rdcycle (n0 + 8 * k + 2 * j + 1)) - mysecond (rdcycle (n0 + 8 * k + 2 * j))"

text \<open>
  Lines 201-202 and 452-460: \<open>avgtime\<close> and \<open>maxtime\<close> start at 0, \<open>mintime\<close> at
  \<open>FLT_MAX\<close>; \<open>for (k=1; k<NTIMES; k++) for (j=0; j<4; j++)\<close> adds to \<open>avgtime[j]\<close>
  and takes \<open>MIN\<close> and \<open>MAX\<close> with \<open>times[j][k]\<close>.
\<close>

definition FLT_MAX :: real where
  "FLT_MAX = 340282346638528859811704183484516925440"

record stats =
  avgtime :: "nat \<Rightarrow> real"
  maxtime :: "nat \<Rightarrow> real"
  mintime :: "nat \<Rightarrow> real"

definition stats0 :: stats where
  "stats0 = \<lparr>avgtime = (\<lambda>j. 0), maxtime = (\<lambda>j. 0), mintime = (\<lambda>j. FLT_MAX)\<rparr>"

definition acc_step :: "(nat \<Rightarrow> nat \<Rightarrow> real) \<Rightarrow> nat \<Rightarrow> stats \<Rightarrow> stats" where
  "acc_step t k st0 =
     fold (\<lambda>j st. st\<lparr>avgtime := (avgtime st)(j := avgtime st j + t j k),
                      mintime := (mintime st)(j := macro_MIN (mintime st j) (t j k)),
                      maxtime := (maxtime st)(j := macro_MAX (maxtime st j) (t j k))\<rparr>)
       [0..<4] st0"

definition accumulate :: "(nat \<Rightarrow> nat \<Rightarrow> real) \<Rightarrow> nat \<Rightarrow> stats" where
  "accumulate t NTIMES = fold (\<lambda>k st. acc_step t k st) [1..<NTIMES] stats0"

text \<open>
  Lines 267-270: \<open>bytes[0] = 2 * buffer_size; bytes[1] = 2 * buffer_size;
  bytes[2] = 3 * buffer_size; bytes[3] = 3 * buffer_size;\<close> The products are formed in
  \<open>ssize_t\<close> and then converted to \<open>double\<close>.
\<close>

definition bytes :: "64 word \<Rightarrow> nat \<Rightarrow> real" where
  "bytes buffer_size j =
     real_of_int (sint ([2 * buffer_size, 2 * buffer_size, 3 * buffer_size, 3 * buffer_size] ! j))"

text \<open>
  Lines 463-471: for each kernel \<open>avgtime[j] = avgtime[j]/(double)(NTIMES-1)\<close> and the row
  \<open>1.0E-06 * bytes[j]/mintime[j]\<close>, \<open>avgtime[j]\<close>, \<open>mintime[j]\<close>, \<open>maxtime[j]\<close>.
\<close>

record row =
  rate :: real
  avg :: real
  best :: real
  worst :: real

definition summary :: "64 word \<Rightarrow> (nat \<Rightarrow> nat \<Rightarrow> real) \<Rightarrow> nat \<Rightarrow> row list" where
  "summary buffer_size t NTIMES =
     (let st = accumulate t NTIMES
      in map (\<lambda>j. let avgtime_j = avgtime st j / real (NTIMES - 1)
                  in \<lparr>rate = 1 / 10 ^ 6 * bytes buffer_size j / mintime st j,
                      avg = avgtime_j, best = mintime st j, worst = maxtime st j\<rparr>)
           [0..<4])"


partial_function (option) spin :: "(nat \<Rightarrow> 64 word) \<Rightarrow> real \<Rightarrow> nat \<Rightarrow> (real \<times> nat) option" where
  "spin rdcycle t1 n =
     (let t2 = mysecond (rdcycle n)
      in if t2 - t1 < 1 / 10 ^ 6 then spin rdcycle t1 (Suc n) else Some (t2, Suc n))"

declare spin.simps [code]






text \<open>A cycle counter that advances by 1,000,000 cycles (0.01 s) from one reading to the next.\<close>

definition centisecond_clock :: "nat \<Rightarrow> 64 word" where
  "centisecond_clock n = of_nat (n * 1000000)"




text \<open>
  The table of one run: line 264 fixes \<open>buffer_size\<close>, lines 267-270 set \<open>bytes[]\<close>
  from it, the main loop fills \<open>times\<close> from the cycle counter, and lines 452-471 print
  the rows.
\<close>

definition main_summary ::
  "'a stream_type \<Rightarrow> 'a env \<Rightarrow> string list \<Rightarrow> (nat \<Rightarrow> 64 word) \<Rightarrow> nat \<Rightarrow> timing \<Rightarrow> row list" where
  "main_summary T E argv rdcycle NTIMES st0 =
     (let buffer_size = main_buffer_size T E argv;
          st = main_loop_times rdcycle NTIMES st0
      in summary buffer_size (times st) NTIMES)"

section \<open>The kernels on buffers that hold one value each\<close>

lemma fold_upt_Suc: "fold F [0..<Suc n] s = F n (fold F [0..<n] s)"
  by simp

lemma upd_step:
  assumes "n < length xs"
  shows "(map f [0..<n] @ drop n xs)[n := v] = map f [0..<n] @ v # drop (Suc n) xs"
    and "(map f [0..<n] @ drop n xs) ! n = xs ! n"
proof -
  have d: "drop n xs = xs ! n # drop (Suc n) xs"
    using assms by (simp add: Cons_nth_drop_Suc)
  show "(map f [0..<n] @ drop n xs)[n := v] = map f [0..<n] @ v # drop (Suc n) xs"
    by (simp add: list_update_append d)
  show "(map f [0..<n] @ drop n xs) ! n = xs ! n"
    by (simp add: nth_append d)
qed

lemma init_arrays_eq:
  "n \<le> length (a s) \<Longrightarrow> n \<le> length (b s) \<Longrightarrow> n \<le> length (c s) \<Longrightarrow>
   init_arrays T n s = s\<lparr>a := map (\<lambda>j. flit T 1) [0..<n] @ drop n (a s),
                         b := map (\<lambda>j. flit T 2) [0..<n] @ drop n (b s),
                         c := map (\<lambda>j. flit T 0) [0..<n] @ drop n (c s)\<rparr>"
proof (induction n)
  case 0 show ?case by (simp add: init_arrays_def)
next
  case (Suc n)
  then show ?case
    unfolding init_arrays_def fold_upt_Suc by (simp add: upd_step)
qed

lemma warmup_eq:
  "n \<le> length (a s) \<Longrightarrow>
   warmup T n s = s\<lparr>a := map (\<lambda>j. fmul T (flit T 2) (a s ! j)) [0..<n] @ drop n (a s)\<rparr>"
proof (induction n)
  case 0 show ?case by (simp add: warmup_def)
next
  case (Suc n)
  then show ?case
    unfolding warmup_def fold_upt_Suc by (simp add: upd_step)
qed


lemma STREAM_Copy_eq:
  "n \<le> length (c s) \<Longrightarrow>
   STREAM_Copy n s = s\<lparr>c := map (\<lambda>j. a s ! j) [0..<n] @ drop n (c s)\<rparr>"
proof (induction n)
  case 0 show ?case by (simp add: STREAM_Copy_def)
next
  case (Suc n)
  then show ?case
    unfolding STREAM_Copy_def fold_upt_Suc by (simp add: upd_step)
qed

lemma STREAM_Scale_eq:
  "n \<le> length (b s) \<Longrightarrow>
   STREAM_Scale T k n s = s\<lparr>b := map (\<lambda>j. fmul T k (c s ! j)) [0..<n] @ drop n (b s)\<rparr>"
proof (induction n)
  case 0 show ?case by (simp add: STREAM_Scale_def)
next
  case (Suc n)
  then show ?case
    unfolding STREAM_Scale_def fold_upt_Suc by (simp add: upd_step)
qed

lemma STREAM_Add_eq:
  "n \<le> length (c s) \<Longrightarrow>
   STREAM_Add T n s = s\<lparr>c := map (\<lambda>j. fadd T (a s ! j) (b s ! j)) [0..<n] @ drop n (c s)\<rparr>"
proof (induction n)
  case 0 show ?case by (simp add: STREAM_Add_def)
next
  case (Suc n)
  then show ?case
    unfolding STREAM_Add_def fold_upt_Suc by (simp add: upd_step)
qed

lemma STREAM_Triad_eq:
  "n \<le> length (a s) \<Longrightarrow>
   STREAM_Triad T k n s =
     s\<lparr>a := map (\<lambda>j. fadd T (b s ! j) (fmul T k (c s ! j))) [0..<n] @ drop n (a s)\<rparr>"
proof (induction n)
  case 0 show ?case by (simp add: STREAM_Triad_def)
next
  case (Suc n)
  then show ?case
    unfolding STREAM_Triad_def fold_upt_Suc by (simp add: upd_step)
qed

lemma map_const_upt: "map (\<lambda>j. v) [0..<n] = replicate n v"
  by (simp add: map_replicate_const)

lemma map_nth_replicate_upt: "map (\<lambda>j. f (replicate n x ! j)) [0..<n] = replicate n (f x)"
  by (rule nth_equalityI) simp_all

lemma map_nth2_replicate_upt:
  "map (\<lambda>j. f (replicate n x ! j) (replicate n y ! j)) [0..<n] = replicate n (f x y)"
  by (rule nth_equalityI) simp_all

lemma init_arrays_const:
  "allocated n s \<Longrightarrow> init_arrays T n s = const_arrays n (flit T 1, flit T 2, flit T 0)"
  by (simp add: allocated_def init_arrays_eq const_arrays_def map_const_upt)

lemma warmup_const:
  "warmup T n (const_arrays n (x, y, z)) = const_arrays n (fmul T (flit T 2) x, y, z)"
  by (simp add: warmup_eq const_arrays_def map_nth_replicate_upt)

lemma STREAM_Copy_const: "STREAM_Copy n (const_arrays n (x, y, z)) = const_arrays n (x, y, x)"
  using map_nth_replicate_upt [of "\<lambda>v. v" n x]
  by (simp add: STREAM_Copy_eq const_arrays_def)

lemma STREAM_Scale_const:
  "STREAM_Scale T k n (const_arrays n (x, y, z)) = const_arrays n (x, fmul T k z, z)"
  by (simp add: STREAM_Scale_eq const_arrays_def map_nth_replicate_upt)

lemma STREAM_Add_const:
  "STREAM_Add T n (const_arrays n (x, y, z)) = const_arrays n (x, y, fadd T x y)"
  by (simp add: STREAM_Add_eq const_arrays_def map_nth2_replicate_upt)

lemma STREAM_Triad_const:
  "STREAM_Triad T k n (const_arrays n (x, y, z)) = const_arrays n (fadd T y (fmul T k z), y, z)"
  using map_nth2_replicate_upt [of "\<lambda>u v. fadd T u (fmul T k v)" n y z]
  by (simp add: STREAM_Triad_eq const_arrays_def)

lemma kernel_round_const:
  "kernel_round T k n (const_arrays n v) = const_arrays n (replay_round T k v)"
  by (cases v)
     (simp add: kernel_round_def replay_round_def Let_def STREAM_Copy_const STREAM_Scale_const
        STREAM_Add_const STREAM_Triad_const)

lemma rounds_const:
  "fold (\<lambda>k s. kernel_round T sc n s) [0..<r] (const_arrays n v)
     = const_arrays n (fold (\<lambda>k w. replay_round T sc w) [0..<r] v)"
  by (induction r) (simp_all add: kernel_round_const)

lemma executor_const:
  "allocated n s \<Longrightarrow> executor T r n s = const_arrays n (replay T r)"
  by (simp add: executor_def main_loop_def replay_def init_arrays_const warmup_const rounds_const)

lemma uniform_const_arrays: "uniform n (const_arrays n v)"
  by (cases v) (simp add: uniform_def const_arrays_def)



lemma uniformD:
  "uniform n s \<Longrightarrow> i < n \<Longrightarrow> j < n \<Longrightarrow>
     a s ! i = a s ! j \<and> b s ! i = b s ! j \<and> c s ! i = c s ! j"
  unfolding uniform_def by (meson atLeastLessThan_iff le0)

lemma uniform_replicate:
  assumes "length xs = n" and "\<And>i. i < n \<Longrightarrow> xs ! i = xs ! 0"
  shows "xs = replicate n (xs ! 0)"
proof (rule nth_equalityI)
  show "length xs = length (replicate n (xs ! 0))" using assms(1) by simp
next
  fix i assume "i < length xs"
  then have "i < n" using assms(1) by simp
  then show "xs ! i = replicate n (xs ! 0) ! i" using assms(2) [of i] by simp
qed

lemma sel_const_arrays:
  "a (const_arrays n (x, y, z)) = replicate n x"
  "b (const_arrays n (x, y, z)) = replicate n y"
  "c (const_arrays n (x, y, z)) = replicate n z"
  by (simp_all add: const_arrays_def)

lemma uniform_is_const:
  assumes "allocated n s" "uniform n s"
  shows "s = const_arrays n (a s ! 0, b s ! 0, c s ! 0)"
proof (rule arrays.equality)
  have len: "length (a s) = n" "length (b s) = n" "length (c s) = n"
    using assms(1) by (simp_all add: allocated_def)
  have A: "a s = replicate n (a s ! 0)"
    using len(1) by (rule uniform_replicate) (use uniformD [OF assms(2), of _ 0] in blast)
  show "a s = a (const_arrays n (a s ! 0, b s ! 0, c s ! 0))"
    by (subst sel_const_arrays) (rule A)
  have B: "b s = replicate n (b s ! 0)"
    using len(2) by (rule uniform_replicate) (use uniformD [OF assms(2), of _ 0] in blast)
  show "b s = b (const_arrays n (a s ! 0, b s ! 0, c s ! 0))"
    by (subst sel_const_arrays) (rule B)
  have C: "c s = replicate n (c s ! 0)"
    using len(3) by (rule uniform_replicate) (use uniformD [OF assms(2), of _ 0] in blast)
  show "c s = c (const_arrays n (a s ! 0, b s ! 0, c s ! 0))"
    by (subst sel_const_arrays) (rule C)
qed simp

lemma allocated_const_arrays: "allocated n (const_arrays n v)"
  by (cases v) (simp add: allocated_def const_arrays_def)



section \<open>Executor and validator replay agree\<close>

text \<open>
  Claim C1. For every element count \<open>N \<ge> 2\<close> and repetition count \<open>R \<ge> 2\<close>, after the
  initialisation \<open>a[i]=1.0, b[i]=2.0, c[i]=0.0\<close>, the warm-up \<open>a[i]=2*a[i]\<close> and
  \<open>R\<close> rounds of Copy, Scale, Add, Triad, every element of \<open>a\<close>, \<open>b\<close>, \<open>c\<close> is
  identical to the scalar \<open>aj\<close>, \<open>bj\<close>, \<open>cj\<close> that the replay of
  \<open>checkSTREAMresults\<close> computes with the same \<open>R\<close>. The statement is for every
  element arithmetic \<open>T\<close>, so the agreement is one of values as the machine computes
  them, rounding included.
\<close>

theorem executor_agrees_with_replay:
  assumes "allocated N s0" and "2 \<le> N" and "2 \<le> R"
    and "replay T R = (aj, bj, cj)" and "i < N"
  shows "a (executor T R N s0) ! i = aj
       \<and> b (executor T R N s0) ! i = bj
       \<and> c (executor T R N s0) ! i = cj"
  using assms(4,5) by (simp add: executor_const [OF assms(1)] sel_const_arrays)

theorem executor_agrees_with_replay_witness:
  "allocated 2 \<lparr>a = [7, 8], b = [9, 10], c = [11, 12::real]\<rparr>
   \<and> replay real_double 2 = (450, 90, 120)
   \<and> a (executor real_double 2 2 \<lparr>a = [7, 8], b = [9, 10], c = [11, 12]\<rparr>) ! 1 = 450
   \<and> b (executor real_double 2 2 \<lparr>a = [7, 8], b = [9, 10], c = [11, 12]\<rparr>) ! 1 = 90
   \<and> c (executor real_double 2 2 \<lparr>a = [7, 8], b = [9, 10], c = [11, 12]\<rparr>) ! 1 = 120"
proof -
  have h1: "allocated 2 \<lparr>a = [7, 8], b = [9, 10], c = [11, 12::real]\<rparr>"
    by (simp add: allocated_def)
  have h2: "replay real_double 2 = (450, 90, 120)"
    by code_simp
  have h3: "(2::nat) \<le> 2" and h4: "(1::nat) < 2"
    by simp_all
  show ?thesis
    using h1 h2 executor_agrees_with_replay [OF h1 h3 h3 h2 h4] by simp
qed

section \<open>Uniformity of the buffers\<close>

text \<open>
  Claim C10. Right after the initialisation loop each of \<open>a\<close>, \<open>b\<close>, \<open>c\<close> holds one
  value at all indices below \<open>stream_array_size\<close>, and the warm-up loop and each of
  the four kernels keep it so (with the buffers still of the allocated length, so the
  steps chain); hence the buffers are uniform after every number \<open>r\<close> of completed
  rounds of the main loop.
\<close>

theorem uniformity_invariant:
  assumes "allocated N s0" and "allocated N s" and "uniform N s"
  shows "allocated N (init_arrays T N s0) \<and> uniform N (init_arrays T N s0)
       \<and> allocated N (warmup T N s) \<and> uniform N (warmup T N s)
       \<and> allocated N (STREAM_Copy N s) \<and> uniform N (STREAM_Copy N s)
       \<and> allocated N (STREAM_Scale T scalar N s) \<and> uniform N (STREAM_Scale T scalar N s)
       \<and> allocated N (STREAM_Add T N s) \<and> uniform N (STREAM_Add T N s)
       \<and> allocated N (STREAM_Triad T scalar N s) \<and> uniform N (STREAM_Triad T scalar N s)
       \<and> (\<forall>r. uniform N (executor T r N s0))"
proof -
  obtain x y z where s: "s = const_arrays N (x, y, z)"
    using uniform_is_const [OF assms(2,3)] by blast
  show ?thesis
    unfolding s
    by (simp add: init_arrays_const [OF assms(1)] executor_const [OF assms(1)]
          warmup_const STREAM_Copy_const STREAM_Scale_const STREAM_Add_const
          STREAM_Triad_const allocated_const_arrays uniform_const_arrays)
qed

theorem uniformity_invariant_witness:
  "allocated 2 \<lparr>a = [7, 8], b = [9, 10], c = [11, 12::real]\<rparr>
   \<and> allocated 2 \<lparr>a = [5, 5], b = [6, 6], c = [4, 4::real]\<rparr>
   \<and> uniform 2 \<lparr>a = [5, 5], b = [6, 6], c = [4, 4::real]\<rparr>
   \<and> uniform 2 (init_arrays real_double 2 \<lparr>a = [7, 8], b = [9, 10], c = [11, 12]\<rparr>)
   \<and> uniform 2 (STREAM_Triad real_double 3 2 \<lparr>a = [5, 5], b = [6, 6], c = [4, 4]\<rparr>)
   \<and> STREAM_Triad real_double 3 2 \<lparr>a = [5, 5], b = [6, 6], c = [4, 4]\<rparr>
       = \<lparr>a = [18, 18], b = [6, 6], c = [4, 4]\<rparr>"
proof -
  have h1: "allocated 2 \<lparr>a = [7, 8], b = [9, 10], c = [11, 12::real]\<rparr>"
    by (simp add: allocated_def)
  have h2: "allocated 2 \<lparr>a = [5, 5], b = [6, 6], c = [4, 4::real]\<rparr>"
    by (simp add: allocated_def)
  have h3: "uniform 2 \<lparr>a = [5, 5], b = [6, 6], c = [4, 4::real]\<rparr>"
    by code_simp
  have h4: "STREAM_Triad real_double 3 2 \<lparr>a = [5, 5], b = [6, 6], c = [4, 4]\<rparr>
       = \<lparr>a = [18, 18], b = [6, 6], c = [4, 4]\<rparr>"
    by code_simp
  show ?thesis
    using h1 h2 h3 h4 uniformity_invariant [OF h1 h2 h3, of real_double 3] by simp
qed

lemma fold_triple:
  "fold (\<lambda>j (x, y, z). (f j x, g j y, h j z)) js (x0, y0, z0)
     = (fold f js x0, fold g js y0, fold h js z0)"
  by (induction js arbitrary: x0 y0 z0) simp_all

lemma fold_acc_foldl: "fold (\<lambda>j acc. f acc (v j)) js z = foldl f z (map v js)"
  by (induction js arbitrary: z) simp_all

lemma fold_count:
  "fold (\<lambda>j (ierr :: 32 word). if P j then ierr + 1 else ierr) js w
     = w + of_nat (length (filter P js))"
  by (induction js arbitrary: w) simp_all

lemma count_errors_eq:
  "count_errors T (epsilon_of T) n xs xj = of_nat (length (deviating T n xs xj))"
  by (simp add: count_errors_def deviating_def fold_count)

lemma sint_of_nat_32: "n < 2 ^ 31 \<Longrightarrow> sint (of_nat n :: 32 word) = int n"
  by (simp add: signed_of_nat signed_take_bit_int_eq_self)

lemma length_deviating: "length (deviating T n xs xj) \<le> n"
  unfolding deviating_def by (rule order_trans [OF length_filter_le]) simp

lemma sint_count_errors:
  "length (deviating T n xs xj) < 2 ^ 31 \<Longrightarrow>
   sint (count_errors T (epsilon_of T) n xs xj) = int (length (deviating T n xs xj))"
  unfolding count_errors_eq by (rule sint_of_nat_32)

lemma sum_errors:
  "fold (\<lambda>j (aSumErr, bSumErr, cSumErr).
           (fadd T aSumErr (macro_abs T (fsub T (a s ! j) aj)),
            fadd T bSumErr (macro_abs T (fsub T (b s ! j) bj)),
            fadd T cSumErr (macro_abs T (fsub T (c s ! j) cj))))
        [0..<n] (flit T 0, flit T 0, flit T 0)
   = (foldl (fadd T) (flit T 0) (map (\<lambda>i. macro_abs T (fsub T (a s ! i) aj)) [0..<n]),
      foldl (fadd T) (flit T 0) (map (\<lambda>i. macro_abs T (fsub T (b s ! i) bj)) [0..<n]),
      foldl (fadd T) (flit T 0) (map (\<lambda>i. macro_abs T (fsub T (c s ! i) cj)) [0..<n]))"
  unfolding fold_triple
  by (simp add: fold_acc_foldl [of "fadd T" "\<lambda>j. macro_abs T (fsub T (a s ! j) aj)"]
        fold_acc_foldl [of "fadd T" "\<lambda>j. macro_abs T (fsub T (b s ! j) bj)"]
        fold_acc_foldl [of "fadd T" "\<lambda>j. macro_abs T (fsub T (c s ! j) cj)"])

lemma checkSTREAMresults_eq:
  assumes "replay T R = (aj, bj, cj)"
  shows "checkSTREAMresults T R N s =
    \<lparr>a_report = (if buffer_failed T N (a s) aj
                  then Some (sint (count_errors T (epsilon_of T) N (a s) aj)) else None),
     b_report = (if buffer_failed T N (b s) bj
                  then Some (sint (count_errors T (epsilon_of T) N (b s) bj)) else None),
     c_report = (if buffer_failed T N (c s) cj
                  then Some (sint (count_errors T (epsilon_of T) N (c s) cj)) else None),
     err = sint ((if buffer_failed T N (a s) aj then 1 else 0)
               + (if buffer_failed T N (b s) bj then 1 else 0)
               + (if buffer_failed T N (c s) cj then 1 else (0 :: 32 word))),
     validates = \<not> (buffer_failed T N (a s) aj \<or> buffer_failed T N (b s) bj
                      \<or> buffer_failed T N (c s) cj)\<rparr>"
  unfolding checkSTREAMresults_def assms sum_errors
  by (simp add: Let_def buffer_failed_def avgAbsErr_def)

lemma foldl_add_replicate: "foldl (+) z (replicate n (x :: real)) = z + real n * x"
  by (induction n arbitrary: z) (simp_all add: algebra_simps)

lemma replay_2: "replay real_double 2 = (450, 90, 120)"
  by code_simp

lemma buffer_failed_zeros:
  assumes "0 < n"
  shows "buffer_failed real_double n (replicate n 0) 450"
proof -
  have m: "map (\<lambda>i. macro_abs real_double (fsub real_double (replicate n 0 ! i) 450)) [0..<n]
        = replicate n (macro_abs real_double (fsub real_double 0 450))"
    by (rule map_nth_replicate_upt)
  have v: "macro_abs real_double (fsub real_double 0 450) = 450"
    by (simp add: macro_abs_def real_double_def)
  have "avgAbsErr real_double n (replicate n 0) 450 = 450"
    unfolding avgAbsErr_def m v using assms
    by (simp add: real_double_def foldl_add_replicate)
  then show ?thesis
    unfolding buffer_failed_def
    by (simp add: macro_abs_def epsilon_of_def real_double_def)
qed

lemma deviating_zeros: "deviating real_double n (replicate n 0) 450 = [0..<n]"
  unfolding deviating_def
  by (rule filter_True) (simp add: macro_abs_def epsilon_of_def real_double_def)

lemma not_fff: "(NOT 0xFFF :: 64 word) = NOT (mask 12)"
  by (simp add: mask_eq_exp_minus_1)

lemma and_not_mask_12: "(x :: 64 word) AND NOT (mask 12) = push_bit 12 (drop_bit 12 x)"
  by (rule bit_eqI) (auto simp: bit_simps)

lemma round_down_4096:
  fixes k :: int
  shows "k div 4096 * 4096 = k - k mod 4096" and "0 \<le> k mod 4096" and "k mod 4096 < 4096"
  by (simp_all add: minus_mod_eq_div_mult)

lemma uint_align: "uint ((x :: 64 word) AND NOT 0xFFF) = uint x div 4096 * 4096"
proof -
  have "0 \<le> uint x" and "uint x < 18446744073709551616"
    using uint_lt2p [of x] by simp_all
  then have "0 \<le> uint x div 4096 * 4096"
    by (simp add: pos_imp_zdiv_nonneg_iff)
  moreover have "uint x div 4096 * 4096 < 18446744073709551616"
    using \<open>uint x < 18446744073709551616\<close> round_down_4096 [of "uint x"] by linarith
  ultimately have "uint x div 4096 * 4096 mod 18446744073709551616 = uint x div 4096 * 4096"
    by simp
  then have "uint (push_bit 12 (drop_bit 12 x)) = uint x div 4096 * 4096"
    by (simp add: push_bit_eq_mult drop_bit_eq_div uint_word_ariths uint_div_distrib)
  then show ?thesis unfolding not_fff and_not_mask_12 .
qed

lemma sint_eq_uint_64:
  assumes "uint (w :: 64 word) < 2 ^ 63"
  shows "sint w = uint w"
proof -
  have "- (2 ^ 63) \<le> uint w"
    by (rule order_trans [of _ 0]) simp_all
  then have "signed_take_bit 63 (uint w) = uint w"
    using assms by (rule signed_take_bit_int_eq_self)
  then show ?thesis
    by (simp add: sint_uint)
qed

lemma uint_eq_sint_64: "0 \<le> sint (w :: 64 word) \<Longrightarrow> uint w = sint w"
  using sint_lt [of w] by (simp add: uint_sint take_bit_int_eq_self)

lemma page_round_sint:
  assumes "0 < sint s" and "sint s \<le> 2 ^ 63 - 4096"
  shows "sint (page_round s) = (sint s + 4095) div 4096 * 4096"
proof -
  have u: "uint s = sint s"
    using assms(1) by (simp add: uint_eq_sint_64)
  have "uint (s + 4095) = (sint s + 4095) mod 2 ^ 64"
    by (simp add: uint_word_ariths u)
  also have "\<dots> = sint s + 4095"
    using assms by simp
  finally have x: "uint (s + 4095) = sint s + 4095" .
  have r: "uint (page_round s) = (sint s + 4095) div 4096 * 4096"
    unfolding page_round_def uint_align x ..
  have "(sint s + 4095) div 4096 * 4096 \<le> sint s + 4095"
    using round_down_4096 [of "sint s + 4095"] by linarith
  then have "uint (page_round s) < 2 ^ 63"
    using assms(2) r by simp
  then show ?thesis
    using r by (simp add: sint_eq_uint_64)
qed

lemma heap_alloc_valid:
  "pa \<noteq> 0 \<Longrightarrow> pb \<noteq> 0 \<Longrightarrow> pc \<noteq> 0 \<Longrightarrow> heap_alloc E bs (pa, pb, pc) = ((pa, pb, pc), [])"
  by (simp add: heap_alloc_def)

lemma heap_alloc_events: "set (snd (heap_alloc E bs p)) \<subseteq> {Aligned_alloc 4096 bs}"
  by (cases p) (simp add: heap_alloc_def Let_def)

lemma main_body_eq:
  assumes "heap_alloc E bs p = ((pa, pb, pc), ev)"
  shows "main_body T R E argc bs fid p =
     (if 0 < nat (sint (bs div of_nat (sizeof T))) \<and> \<not> (valid_ptr pa \<and> valid_ptr pb \<and> valid_ptr pc)
      then (ev @ [Config (bs div of_nat (sizeof T))], Segfault)
      else (ev @ [Config (bs div of_nat (sizeof T)), Kernels, Summary,
                  Check_results (checkSTREAMresults T R (nat (sint (bs div of_nat (sizeof T))))
                    (executor T R (nat (sint (bs div of_nat (sizeof T))))
                       \<lparr>a = map (uninit_mem E) [0..<nat (sint (bs div of_nat (sizeof T)))],
                        b = map (uninit_mem E) [0..<nat (sint (bs div of_nat (sizeof T)))],
                        c = map (uninit_mem E) [0..<nat (sint (bs div of_nat (sizeof T)))]\<rparr>))]
              @ teardown argc fid bs (pa, pb, pc), Exit 0))"
  by (simp add: main_body_def assms Let_def)

lemma main_body_cases:
  obtains ev where "set ev \<subseteq> {Aligned_alloc 4096 bs}"
      and "main_body T R E argc bs fid p = (ev @ [Config (bs div of_nat (sizeof T))], Segfault)"
  | ev v q where "set ev \<subseteq> {Aligned_alloc 4096 bs}"
      and "main_body T R E argc bs fid p =
             (ev @ [Config (bs div of_nat (sizeof T)), Kernels, Summary, Check_results v]
                @ teardown argc fid bs q, Exit 0)"
proof -
  obtain pa pb pc ev where h: "heap_alloc E bs p = ((pa, pb, pc), ev)"
    by (metis prod.exhaust)
  have ev: "set ev \<subseteq> {Aligned_alloc 4096 bs}"
    using heap_alloc_events [of E bs p] by (simp add: h)
  show thesis
    using that ev main_body_eq [OF h, of T R argc fid] by (auto split: if_splits)
qed




lemma main_body_outcome:
  "snd (main_body T R E argc bs fid p) = Segfault \<or> snd (main_body T R E argc bs fid p) = Exit 0"
  by (rule main_body_cases [of bs T R E argc fid p]) simp_all

lemma main_body_checked:
  "Check_results v \<in> set (fst (main_body T R E argc bs fid p))
     \<Longrightarrow> snd (main_body T R E argc bs fid p) = Exit 0"
  by (rule main_body_cases [of bs T R E argc fid p]) auto

lemma main_outcome: "snd (main T R E argv) = Segfault \<or> snd (main T R E argv) = Exit 0"
  using main_body_outcome [of T R E "length argv" "main_buffer_size T E argv"]
  by (simp add: main_def Let_def split: prod.splits) (metis snd_conv)

lemma main_checked_exit:
  "Check_results v \<in> set (fst (main T R E argv)) \<Longrightarrow> snd (main T R E argv) = Exit 0"
  using main_body_checked [of v T R E "length argv" "main_buffer_size T E argv"]
  by (simp add: main_def Let_def split: prod.splits if_splits) (metis fst_conv snd_conv)+

lemma valid_ptr_nonzero: "valid_ptr p \<Longrightarrow> p \<noteq> 0"
  by (simp add: valid_ptr_def)

lemma no_release_allocs: "set ev \<subseteq> {Aligned_alloc 4096 bs} \<Longrightarrow> \<forall>e \<in> set ev. \<not> is_release e"
  by auto

lemma no_release_main_body:
  "argc \<le> 1 \<Longrightarrow> \<forall>e \<in> set (fst (main_body T R E argc bs fid p)). \<not> is_release e"
  by (rule main_body_cases [of bs T R E argc fid p]) (auto simp: teardown_def)



lemma page_round_low_bits: "page_round x AND 0xFFF = 0"
  by (simp add: page_round_def and.assoc)



lemma main_buffer_size_low_bits: "main_buffer_size T E argv AND 0xFFF = 0"
  by (simp only: main_buffer_size_def Let_def page_round_low_bits)

lemma main_buffer_size_not_80000000: "main_buffer_size T E argv \<noteq> 80000000"
proof
  assume "main_buffer_size T E argv = 80000000"
  then have "(80000000 :: 64 word) AND 0xFFF = 0"
    using main_buffer_size_low_bits [of T E argv] by simp
  then show False
    by simp
qed

lemma time_kernel_eq:
  "time_kernel clk j k st =
     \<lparr>reads = reads st + 2,
      times = (times st)(j := (times st j)(k := mysecond (clk (Suc (reads st))) - mysecond (clk (reads st))))\<rparr>"
  by (simp add: time_kernel_def Let_def)

lemma timed_round:
  assumes "reads st = n0 + 8 * k"
  shows "reads (time_kernel clk 3 k (time_kernel clk 2 k (time_kernel clk 1 k (time_kernel clk 0 k st))))
           = n0 + 8 * Suc k"
    and "times (time_kernel clk 3 k (time_kernel clk 2 k (time_kernel clk 1 k (time_kernel clk 0 k st)))) j k'
           = (if j < 4 \<and> k' = k then elapsed clk n0 j k else times st j k')"
proof -
  show "reads (time_kernel clk 3 k (time_kernel clk 2 k (time_kernel clk 1 k (time_kernel clk 0 k st))))
           = n0 + 8 * Suc k"
    by (simp add: time_kernel_eq assms)
  have "j = 0 \<or> j = 1 \<or> j = 2 \<or> j = 3 \<or> \<not> j < 4"
    by auto
  then show "times (time_kernel clk 3 k (time_kernel clk 2 k (time_kernel clk 1 k (time_kernel clk 0 k st)))) j k'
           = (if j < 4 \<and> k' = k then elapsed clk n0 j k else times st j k')"
    by (auto simp: time_kernel_eq assms elapsed_def numeral_eq_Suc)
qed

lemma main_loop_times_eq:
  "reads (main_loop_times clk K st0) = reads st0 + 8 * K
   \<and> (\<forall>j k. times (main_loop_times clk K st0) j k
          = (if j < 4 \<and> k < K then elapsed clk (reads st0) j k else times st0 j k))"
proof (induction K)
  case 0
  show ?case by (simp add: main_loop_times_def)
next
  case (Suc K)
  let ?st = "main_loop_times clk K st0"
  have r: "reads ?st = reads st0 + 8 * K"
    using Suc by simp
  have s: "main_loop_times clk (Suc K) st0
      = time_kernel clk 3 K (time_kernel clk 2 K (time_kernel clk 1 K (time_kernel clk 0 K ?st)))"
    by (simp add: main_loop_times_def)
  have "reads (main_loop_times clk (Suc K) st0) = reads st0 + 8 * Suc K"
    unfolding s by (rule timed_round(1) [OF r])
  moreover have "times (main_loop_times clk (Suc K) st0) j k
      = (if j < 4 \<and> k < Suc K then elapsed clk (reads st0) j k else times st0 j k)" for j k
  proof -
    have "times (main_loop_times clk (Suc K) st0) j k
        = (if j < 4 \<and> k = K then elapsed clk (reads st0) j K else times ?st j k)"
      unfolding s by (rule timed_round(2) [OF r])
    then show ?thesis
      using Suc by (auto simp: less_Suc_eq)
  qed
  ultimately show ?case
    by blast
qed


lemma macro_MIN_real: "macro_MIN (x :: real) y = min x y"
  by (simp add: macro_MIN_def min_def)

lemma upt_4: "[0..<4] = [0, 1, 2, 3]"
  by (simp add: upt_rec)

lemma mintime_acc_step:
  "mintime (acc_step t k st) j = (if j < 4 then min (mintime st j) (t j k) else mintime st j)"
proof -
  have "j = 0 \<or> j = 1 \<or> j = 2 \<or> j = 3 \<or> \<not> j < 4"
    by auto
  then show ?thesis
    by (auto simp: acc_step_def upt_4 macro_MIN_real)
qed

lemma mintime_fold_acc_step:
  "j < 4 \<Longrightarrow>
   mintime (fold (acc_step t) ks st) j = fold (\<lambda>k m. min m (t j k)) ks (mintime st j)"
  by (induction ks arbitrary: st) (simp_all add: mintime_acc_step)

lemma accumulate_acc_step: "accumulate t NTIMES = fold (acc_step t) [1..<NTIMES] stats0"
  unfolding accumulate_def ..

lemma Min_insert_min:
  assumes "finite S"
  shows "Min (insert (min x y) S) = Min (insert x (insert y (S :: 'a :: linorder set)))"
proof (cases "S = {}")
  case True
  then show ?thesis by simp
next
  case False
  have "Min (insert (min x y) S) = min (min x y) (Min S)"
    using assms False by (rule Min_insert)
  moreover have "Min (insert y S) = min y (Min S)"
    using assms False by (rule Min_insert)
  moreover have "Min (insert x (insert y S)) = min x (Min (insert y S))"
    by (rule Min_insert) (use assms in simp_all)
  ultimately show ?thesis
    by (simp add: min.assoc)
qed

lemma fold_min_Min:
  "fold (\<lambda>k m. min m (f k)) ks (m0 :: 'a :: linorder) = Min (insert m0 (f ` set ks))"
proof (induction ks arbitrary: m0)
  case Nil
  show ?case by simp
next
  case (Cons k ks)
  have "fold (\<lambda>k m. min m (f k)) (k # ks) m0 = Min (insert (min m0 (f k)) (f ` set ks))"
    by (simp add: Cons)
  also have "\<dots> = Min (insert m0 (insert (f k) (f ` set ks)))"
    by (rule Min_insert_min) simp
  finally show ?case
    by simp
qed

lemma mysecond_bounds: "0 \<le> mysecond w" "mysecond w < FLT_MAX"
proof -
  show "0 \<le> mysecond w"
    unfolding mysecond_def CLOCK_PER_SEC_def
    by (rule divide_nonneg_pos) (rule of_nat_0_le_iff, simp)
  have "unat w < 2 ^ 64"
    using unsigned_less [of w] by simp
  then have "real (unat w) < real (2 ^ 64)"
    by (rule of_nat_less_iff [THEN iffD2])
  then have "real (unat w) / 100000000 < 340282346638528859811704183484516925440"
    by simp
  then show "mysecond w < FLT_MAX"
    unfolding mysecond_def CLOCK_PER_SEC_def FLT_MAX_def .
qed

lemma elapsed_less_FLT_MAX: "elapsed clk n0 j k < FLT_MAX"
  using mysecond_bounds(2) [of "clk (n0 + 8 * k + 2 * j + 1)"]
    mysecond_bounds(1) [of "clk (n0 + 8 * k + 2 * j)"]
  by (simp add: elapsed_def)

lemma mintime_accumulate:
  assumes "j < 4" and "2 \<le> NTIMES" and "\<And>k. k < NTIMES \<Longrightarrow> t j k < FLT_MAX"
  shows "mintime (accumulate t NTIMES) j = Min ((\<lambda>k. t j k) ` {1..<NTIMES})"
proof -
  have "1 \<in> {1..<NTIMES}"
    using assms(2) by auto
  then have ne: "(\<lambda>k. t j k) ` {1..<NTIMES} \<noteq> {}"
    by blast
  have fin: "finite ((\<lambda>k. t j k) ` {1..<NTIMES})"
    by simp
  have "Min ((\<lambda>k. t j k) ` {1..<NTIMES}) \<in> (\<lambda>k. t j k) ` {1..<NTIMES}"
    using fin ne by (rule Min_in)
  then have le: "Min ((\<lambda>k. t j k) ` {1..<NTIMES}) \<le> FLT_MAX"
    using assms(3) by (auto simp: less_imp_le)
  have "mintime (accumulate t NTIMES) j = Min (insert FLT_MAX ((\<lambda>k. t j k) ` {1..<NTIMES}))"
    by (simp add: accumulate_acc_step mintime_fold_acc_step [OF assms(1)] fold_min_Min stats0_def)
  also have "\<dots> = min FLT_MAX (Min ((\<lambda>k. t j k) ` {1..<NTIMES}))"
    using fin ne by (rule Min_insert)
  also have "\<dots> = Min ((\<lambda>k. t j k) ` {1..<NTIMES})"
    using le by (simp add: min_def)
  finally show ?thesis .
qed


lemma sint_small_mult:
  assumes "0 \<le> sint (w :: 64 word)" and "3 * sint w < 2 ^ 63"
  shows "sint (2 * w) = 2 * sint w" and "sint (3 * w) = 3 * sint w"
proof -
  have "signed_take_bit 63 (2 * sint w) = 2 * sint w"
    by (rule signed_take_bit_int_eq_self) (use assms in simp_all)
  then show "sint (2 * w) = 2 * sint w"
    by (simp add: sint_word_ariths)
  have "signed_take_bit 63 (3 * sint w) = 3 * sint w"
    by (rule signed_take_bit_int_eq_self) (use assms in simp_all)
  then show "sint (3 * w) = 3 * sint w"
    by (simp add: sint_word_ariths)
qed

lemma bytes_eq:
  assumes "0 \<le> sint bs" and "3 * sint bs < 2 ^ 63" and "j < 4"
  shows "bytes bs j = (if j < 2 then 2 else 3) * real_of_int (sint bs)"
proof -
  have "j = 0 \<or> j = 1 \<or> j = 2 \<or> j = 3"
    using assms(3) by auto
  moreover have "(signed (2 * bs) :: real) = 2 * signed bs"
    using arg_cong [OF sint_small_mult(1) [OF assms(1,2)], of real_of_int] by simp
  moreover have "(signed (3 * bs) :: real) = 3 * signed bs"
    using arg_cong [OF sint_small_mult(2) [OF assms(1,2)], of real_of_int] by simp
  ultimately show ?thesis
    by (auto simp: bytes_def)
qed

lemma summary_nth:
  "j < 4 \<Longrightarrow> summary bs t NTIMES ! j =
     \<lparr>rate = 1 / 10 ^ 6 * bytes bs j / mintime (accumulate t NTIMES) j,
      avg = avgtime (accumulate t NTIMES) j / real (NTIMES - 1),
      best = mintime (accumulate t NTIMES) j, worst = maxtime (accumulate t NTIMES) j\<rparr>"
  by (simp add: summary_def Let_def del: upt_Suc)


lemma spin_exit:
  "\<not> mysecond (clk n) - t1 < 1 / 10 ^ 6 \<Longrightarrow> spin clk t1 n = Some (mysecond (clk n), Suc n)"
  by (subst spin.simps) (simp add: Let_def)

lemma spin_again:
  "mysecond (clk n) - t1 < 1 / 10 ^ 6 \<Longrightarrow> spin clk t1 n = spin clk t1 (Suc n)"
  by (subst spin.simps) (simp add: Let_def)












text \<open>The spin returns as soon as some reading lies a microsecond after its start.\<close>

lemma spin_terminates:
  assumes "n \<le> q" and "\<not> mysecond (clk q) - t1 < 1 / 10 ^ 6"
  shows "\<exists>y. spin clk t1 n = Some y"
  using assms
proof (induction "q - n" arbitrary: n)
  case 0
  then have "q = n" by simp
  then show ?case
    using "0.prems"(2) spin_exit by blast
next
  case (Suc d)
  show ?case
  proof (cases "mysecond (clk n) - t1 < 1 / 10 ^ 6")
    case True
    have "d = q - Suc n" and "Suc n \<le> q"
      using Suc.hyps(2) by simp_all
    then have "\<exists>y. spin clk t1 (Suc n) = Some y"
      using Suc.hyps(1) Suc.prems(2) by blast
    moreover have "spin clk t1 n = spin clk t1 (Suc n)"
      using True by (rule spin_again)
    ultimately show ?thesis
      by simp
  next
    case False
    then show ?thesis
      using spin_exit by blast
  qed
qed








section \<open>The validator computes what the specification describes\<close>

text \<open>
  With \<open>e\<close> the replayed value of a buffer \<open>X\<close>, \<open>checkSTREAMresults\<close> forms
  \<open>avgAbsErr = (sum of |X[i] - e|) / elementCount\<close> (the sum taken in index order from
  0.0) and fails the buffer exactly when \<open>|avgAbsErr / e| > epsilon\<close>, with
  \<open>epsilon\<close> 1e-6 for 4-byte and 1e-13 for 8-byte elements, whatever the element count;
  it prints that the solution validates exactly when none of the three buffers failed;
  and for a failed buffer in which fewer than 2^31 elements deviate it reports the number
  of indices \<open>i\<close> with \<open>|X[i]/e - 1.0| > epsilon\<close>. All of this for every element
  arithmetic.
\<close>

lemma validation_as_specified:
  assumes "replay T R = (aj, bj, cj)"
  shows "(a_report (checkSTREAMresults T R N s) \<noteq> None \<longleftrightarrow> buffer_failed T N (a s) aj)
       \<and> (b_report (checkSTREAMresults T R N s) \<noteq> None \<longleftrightarrow> buffer_failed T N (b s) bj)
       \<and> (c_report (checkSTREAMresults T R N s) \<noteq> None \<longleftrightarrow> buffer_failed T N (c s) cj)
       \<and> (validates (checkSTREAMresults T R N s) \<longleftrightarrow>
            \<not> (buffer_failed T N (a s) aj \<or> buffer_failed T N (b s) bj \<or> buffer_failed T N (c s) cj))
       \<and> (length (deviating T N (a s) aj) < 2 ^ 31 \<longrightarrow>
            a_report (checkSTREAMresults T R N s)
              = (if buffer_failed T N (a s) aj then Some (int (length (deviating T N (a s) aj))) else None))
       \<and> (length (deviating T N (b s) bj) < 2 ^ 31 \<longrightarrow>
            b_report (checkSTREAMresults T R N s)
              = (if buffer_failed T N (b s) bj then Some (int (length (deviating T N (b s) bj))) else None))
       \<and> (length (deviating T N (c s) cj) < 2 ^ 31 \<longrightarrow>
            c_report (checkSTREAMresults T R N s)
              = (if buffer_failed T N (c s) cj then Some (int (length (deviating T N (c s) cj))) else None))
       \<and> (sizeof T = 4 \<longrightarrow> epsilon_of T = flit T (1 / 10 ^ 6))
       \<and> (sizeof T = 8 \<longrightarrow> epsilon_of T = flit T (1 / 10 ^ 13))"
proof -
  have "(sizeof T = 4 \<longrightarrow> epsilon_of T = flit T (1 / 10 ^ 6))
      \<and> (sizeof T = 8 \<longrightarrow> epsilon_of T = flit T (1 / 10 ^ 13))"
    by (simp add: epsilon_of_def)
  then show ?thesis
    by (simp add: checkSTREAMresults_eq [OF assms] sint_count_errors)
qed

lemma validation_as_specified_example:
  "replay real_double 2 = (450, 90, 120) \<and> (3 :: nat) < 2 ^ 31 \<and> sizeof real_double = 8
   \<and> buffer_failed real_double 3 [90, 901 / 10, 90] 90
   \<and> length (deviating real_double 3 [90, 901 / 10, 90] 90) < 2 ^ 31
   \<and> deviating real_double 3 [90, 901 / 10, 90] 90 = [1]
   \<and> b_report (checkSTREAMresults real_double 2 3
         \<lparr>a = [450, 450, 450], b = [90, 901 / 10, 90], c = [120, 120, 120]\<rparr>) = Some 1
   \<and> a_report (checkSTREAMresults real_double 2 3
         \<lparr>a = [450, 450, 450], b = [90, 901 / 10, 90], c = [120, 120, 120]\<rparr>) = None
   \<and> \<not> validates (checkSTREAMresults real_double 2 3
         \<lparr>a = [450, 450, 450], b = [90, 901 / 10, 90], c = [120, 120, 120]\<rparr>)
   \<and> epsilon_of real_double = 1 / 10 ^ 13"
proof -
  have h1: "replay real_double 2 = (450, 90, 120)"
    by (rule replay_2)
  have h2: "(3 :: nat) < 2 ^ 31"
    by simp
  have h3: "sizeof real_double = 8"
    by (simp add: real_double_def)
  have u: "[0..<3] = [0, 1, 2]"
    by (simp add: upt_rec)
  have fb: "buffer_failed real_double 3 [90, 901 / 10, 90] 90"
    by (simp add: buffer_failed_def avgAbsErr_def macro_abs_def epsilon_of_def real_double_def u
          of_rat_divide of_rat_power)
  have fa: "\<not> buffer_failed real_double 3 [450, 450, 450] 450"
    by (simp add: buffer_failed_def avgAbsErr_def macro_abs_def epsilon_of_def real_double_def u
          of_rat_divide of_rat_power)
  have d: "deviating real_double 3 [90, 901 / 10, 90] 90 = [1]"
    by (simp add: deviating_def macro_abs_def epsilon_of_def real_double_def u
          of_rat_divide of_rat_power)
  have e: "flit real_double (1 / 10 ^ 13) = 1 / 10 ^ 13"
    by (simp add: real_double_def of_rat_divide of_rat_power)
  show ?thesis
    using h1 h2 h3 fb fa d e
      validation_as_specified [OF h1,
        of 3 "\<lparr>a = [450, 450, 450], b = [90, 901 / 10, 90], c = [120, 120, 120]\<rparr>"]
    by simp
qed



text \<open>
  Claim C2 says that for each failed buffer the count of deviating elements is reported.
  The count is kept in \<open>int ierr\<close>, while the loop index and the element count are
  \<open>ssize_t\<close> (the header of the file announces that change so that arrays may have
  more than 2^32 elements). With 2^31 elements in \<open>a\<close> that all deviate (here: all
  0.0 where 450 is expected, after \<open>NTIMES = 2\<close>), buffer \<open>a\<close> fails, 2147483648
  elements deviate, and the number reported for \<open>a\<close> is -2147483648: the counter has
  left the range of \<open>int\<close>.
\<close>

theorem error_count_wraps:
  "buffer_failed real_double two_gi (replicate two_gi 0) 450
   \<and> length (deviating real_double two_gi (replicate two_gi 0) 450) = 2147483648
   \<and> a_report (checkSTREAMresults real_double 2 two_gi
        \<lparr>a = replicate two_gi 0, b = replicate two_gi 90, c = replicate two_gi 120\<rparr>)
       = Some (- 2147483648)"
proof -
  have p: "0 < two_gi"
    by (simp add: two_gi_def)
  have f: "buffer_failed real_double two_gi (replicate two_gi 0) 450"
    using p by (rule buffer_failed_zeros)
  have l: "length (deviating real_double two_gi (replicate two_gi 0) 450) = two_gi"
    by (simp add: deviating_zeros)
  have w: "sint (of_nat two_gi :: 32 word) = - 2147483648"
    by (simp add: two_gi_def)
  have "a_report (checkSTREAMresults real_double 2 two_gi
        \<lparr>a = replicate two_gi 0, b = replicate two_gi 90, c = replicate two_gi 120\<rparr>)
       = Some (sint (of_nat two_gi :: 32 word))"
    by (simp add: checkSTREAMresults_eq [OF replay_2] f count_errors_eq l)
  moreover have "two_gi = 2147483648"
    by (simp add: two_gi_def)
  ultimately show ?thesis
    using f l w by simp
qed

section \<open>Page rounding of the buffer size\<close>

text \<open>
  Claim C4 (as amended). \<open>buffer_size\<close> is a signed 64-bit \<open>ssize_t\<close>. For every
  requested size \<open>s\<close> with \<open>0 < s \<le> 2^63 - 4096\<close> the provisioned per-buffer size is
  \<open>s\<close> rounded up to the next multiple of 4096: it is a multiple of 4096, at least
  \<open>s\<close> and less than \<open>s + 4096\<close>. One byte gives one page and one page stays one
  page. Above \<open>2^63 - 4096\<close> the sum \<open>buffer_size+4095\<close> leaves the range of
  \<open>ssize_t\<close> and the result is not a rounding up of \<open>s\<close>; the largest
  \<open>ssize_t\<close> shows it.
\<close>

theorem page_round_in_range:
  assumes "1 < length argv" and "atoll E (argv ! 1) = s"
    and "0 < sint s" and "sint s \<le> 2 ^ 63 - 4096"
  shows "main_buffer_size T E argv = page_round s
       \<and> 4096 dvd sint (page_round s)
       \<and> sint s \<le> sint (page_round s)
       \<and> sint (page_round s) < sint s + 4096
       \<and> page_round 1 = 4096 \<and> page_round 4096 = 4096"
proof -
  have "main_buffer_size T E argv = page_round s"
    using assms(1,2,3) by (simp add: main_buffer_size_def Let_def)
  moreover have "4096 dvd sint (page_round s)"
    unfolding page_round_sint [OF assms(3,4)] by simp
  moreover have "sint s \<le> sint (page_round s)"
    unfolding page_round_sint [OF assms(3,4)]
    using round_down_4096 [of "sint s + 4095"] by linarith
  moreover have "sint (page_round s) < sint s + 4096"
    unfolding page_round_sint [OF assms(3,4)]
    using round_down_4096 [of "sint s + 4095"] by linarith
  moreover have "page_round 1 = 4096" "page_round 4096 = 4096"
    by (simp_all add: page_round_def)
  ultimately show ?thesis by simp
qed

theorem page_round_in_range_witness:
  "1 < length [''stream'', ''4096''] \<and> atoll env0 ([''stream'', ''4096''] ! 1) = 4096
   \<and> 0 < sint (4096 :: 64 word) \<and> sint (4096 :: 64 word) \<le> 2 ^ 63 - 4096
   \<and> main_buffer_size real_double env0 [''stream'', ''4096''] = 4096
   \<and> page_round 4096 = 4096"
proof -
  have h1: "1 < length [''stream'', ''4096'']" by simp
  have h2: "atoll env0 ([''stream'', ''4096''] ! 1) = 4096" by (simp add: env0_def)
  have h3: "0 < sint (4096 :: 64 word)" by simp
  have h4: "sint (4096 :: 64 word) \<le> 2 ^ 63 - 4096" by simp
  show ?thesis
    using h1 h2 h3 h4 page_round_in_range [OF h1 h2 h3 h4, of real_double] by simp
qed

theorem page_round_overflow:
  "0 < sint (0x7FFFFFFFFFFFFFFF :: 64 word)
   \<and> sint (page_round 0x7FFFFFFFFFFFFFFF) = - 9223372036854775808
   \<and> \<not> sint (0x7FFFFFFFFFFFFFFF :: 64 word) \<le> sint (page_round 0x7FFFFFFFFFFFFFFF)"
  by (simp add: page_round_def)

section \<open>Reported bandwidth\<close>

text \<open>
  The reporting code by itself, for any buffer size and any cycle counter. For kernel
  \<open>j\<close> (0 Copy, 1 Scale, 2 Add, 3 Triad) the rate printed in the summary is
  \<open>1e-6 * bytesMoved / minTime\<close>, where \<open>minTime\<close> is the least of the elapsed times of
  repetitions \<open>1 .. NTIMES-1\<close> (the initial \<open>FLT_MAX\<close> of \<open>mintime\<close> never wins, a
  difference of two clock readings being far below it) and \<open>bytesMoved\<close> is twice the
  buffer size for Copy and Scale and three times for Add and Triad. The elapsed time of
  kernel \<open>j\<close> in repetition \<open>k\<close> is the difference of the two readings of the cycle
  counter around it. The buffer size is a 64-bit \<open>ssize_t\<close>, and the products
  \<open>2 * buffer_size\<close> and \<open>3 * buffer_size\<close> are formed in it, so the statement is for
  sizes whose triple fits. Time and rate are \<open>double\<close> in the code and real numbers here.
  Fed 80,000,000 bytes and a Copy time of 0.01 s, the formula gives 16,000 MB/s.
\<close>

lemma reported_bandwidth:
  assumes "2 \<le> NTIMES" and "j < 4"
    and "0 \<le> sint buffer_size" and "3 * sint buffer_size < 2 ^ 63"
  shows "let t = times (main_loop_times rdcycle NTIMES st0);
             minTime = Min ((\<lambda>k. t j k) ` {1..<NTIMES});
             bytesMoved = (if j < 2 then 2 else 3) * real_of_int (sint buffer_size)
         in rate (summary buffer_size t NTIMES ! j) = 1 / 10 ^ 6 * bytesMoved / minTime
          \<and> best (summary buffer_size t NTIMES ! j) = minTime
          \<and> (\<forall>k < NTIMES. t j k = mysecond (rdcycle (reads st0 + 8 * k + 2 * j + 1))
                                    - mysecond (rdcycle (reads st0 + 8 * k + 2 * j)))"
proof -
  let ?t = "times (main_loop_times rdcycle NTIMES st0)"
  have e: "?t j k = elapsed rdcycle (reads st0) j k" if "k < NTIMES" for k
    using main_loop_times_eq [of rdcycle NTIMES st0] assms(2) that by simp
  then have "?t j k < FLT_MAX" if "k < NTIMES" for k
    using that by (simp add: elapsed_less_FLT_MAX)
  then have m: "mintime (accumulate ?t NTIMES) j = Min ((\<lambda>k. ?t j k) ` {1..<NTIMES})"
    using assms(1,2) by (intro mintime_accumulate)
  show ?thesis
    unfolding Let_def summary_nth [OF assms(2)] m bytes_eq [OF assms(3,4,2)]
    using e by (simp add: elapsed_def)
qed

lemma reported_bandwidth_example:
  "(2 :: nat) \<le> 2 \<and> (0 :: nat) < 4 \<and> 0 \<le> sint (80000000 :: 64 word)
   \<and> 3 * sint (80000000 :: 64 word) < 2 ^ 63
   \<and> sint (80000000 :: 64 word) = 8 * 10000000
   \<and> times (main_loop_times centisecond_clock 2 \<lparr>reads = 0, times = (\<lambda>j k. 0)\<rparr>) 0 1 = 1 / 100
   \<and> rate (summary 80000000
         (times (main_loop_times centisecond_clock 2 \<lparr>reads = 0, times = (\<lambda>j k. 0)\<rparr>)) 2 ! 0)
       = 16000"
proof -
  have h1: "(2 :: nat) \<le> 2" and h2: "(0 :: nat) < 4"
    by simp_all
  have h3: "0 \<le> sint (80000000 :: 64 word)" and h4: "3 * sint (80000000 :: 64 word) < 2 ^ 63"
    and h5: "sint (80000000 :: 64 word) = 8 * 10000000"
    by simp_all
  let ?t = "times (main_loop_times centisecond_clock 2 \<lparr>reads = 0, times = (\<lambda>j k. 0)\<rparr>)"
  note th = reported_bandwidth [OF h1 h2 h3 h4, of centisecond_clock
      "\<lparr>reads = 0, times = (\<lambda>j k. 0)\<rparr>", unfolded Let_def]
  have l: "(1 :: nat) < 2"
    by simp
  have e: "?t 0 1 = mysecond (centisecond_clock (reads \<lparr>reads = 0, times = (\<lambda>j k. 0)\<rparr> + 8 * 1 + 2 * 0 + 1))
      - mysecond (centisecond_clock (reads \<lparr>reads = 0, times = (\<lambda>j k. 0)\<rparr> + 8 * 1 + 2 * 0))"
    by (rule th [THEN conjunct2, THEN conjunct2, rule_format, OF l])
  have t1: "?t 0 1 = 1 / 100"
    unfolding e by (simp add: mysecond_def centisecond_clock_def CLOCK_PER_SEC_def)
  have "{1..<2 :: nat} = {1}"
    by (rule set_eqI) (simp, arith)
  then have "(\<lambda>k. ?t 0 k) ` {1..<2} = {?t 0 1}"
    by (simp only: image_insert image_empty)
  then have m: "Min ((\<lambda>k. ?t 0 k) ` {1..<2}) = 1 / 100"
    by (simp only: Min_singleton t1)
  have "rate (summary 80000000 ?t 2 ! 0)
      = 1 / 10 ^ 6 * ((if (0 :: nat) < 2 then 2 else 3) * real_of_int (sint (80000000 :: 64 word)))
          / Min ((\<lambda>k. ?t 0 k) ` {1..<2})"
    by (rule th [THEN conjunct1])
  then have r: "rate (summary 80000000 ?t 2 ! 0) = 16000"
    unfolding m by simp
  show ?thesis
    using h3 h4 h5 t1 r by simp
qed


lemma centisecond_copy_rate:
  assumes "0 \<le> sint bs" and "3 * sint bs < 2 ^ 63"
  shows "rate (summary bs (times (main_loop_times centisecond_clock 2 \<lparr>reads = 0, times = (\<lambda>j k. 0)\<rparr>)) 2 ! 0)
       = 1 / 10 ^ 6 * (2 * real_of_int (sint bs)) / (1 / 100)"
proof -
  have h1: "(2 :: nat) \<le> 2" and h2: "(0 :: nat) < 4"
    by simp_all
  let ?t = "times (main_loop_times centisecond_clock 2 \<lparr>reads = 0, times = (\<lambda>j k. 0)\<rparr>)"
  note th = reported_bandwidth [OF h1 h2 assms, of centisecond_clock
      "\<lparr>reads = 0, times = (\<lambda>j k. 0)\<rparr>", unfolded Let_def]
  have l: "(1 :: nat) < 2"
    by simp
  have e: "?t 0 1 = mysecond (centisecond_clock (reads \<lparr>reads = 0, times = (\<lambda>j k. 0)\<rparr> + 8 * 1 + 2 * 0 + 1))
      - mysecond (centisecond_clock (reads \<lparr>reads = 0, times = (\<lambda>j k. 0)\<rparr> + 8 * 1 + 2 * 0))"
    by (rule th [THEN conjunct2, THEN conjunct2, rule_format, OF l])
  have t1: "?t 0 1 = 1 / 100"
    unfolding e by (simp add: mysecond_def centisecond_clock_def CLOCK_PER_SEC_def)
  have "{1..<2 :: nat} = {1}"
    by (rule set_eqI) (simp, arith)
  then have "(\<lambda>k. ?t 0 k) ` {1..<2} = {?t 0 1}"
    by (simp only: image_insert image_empty)
  then have m: "Min ((\<lambda>k. ?t 0 k) ` {1..<2}) = 1 / 100"
    by (simp only: Min_singleton t1)
  have "rate (summary bs ?t 2 ! 0)
      = 1 / 10 ^ 6 * ((if (0 :: nat) < 2 then 2 else 3) * real_of_int (sint bs))
          / Min ((\<lambda>k. ?t 0 k) ` {1..<2})"
    by (rule th [THEN conjunct1])
  then show ?thesis
    unfolding m by simp
qed

text \<open>
  Claim C3 (as amended). In a run of the program the rate of kernel \<open>j\<close> is
  \<open>1e-6 * bytesMoved / minTime\<close> as above, with \<open>bytesMoved\<close> two or three times the
  provisioned \<open>buffer_size\<close>. That size has come through the page rounding, so its low
  12 bits are clear and it is never 80,000,000: a buffer of 10,000,000 8-byte elements
  does not occur. A request of 80,000,000 bytes is provisioned as 80,003,072 bytes
  (10,000,384 elements), and with a least Copy time of 0.01 s the reported Copy bandwidth
  is 16,000.6144 MB/s, not 16,000.
\<close>

theorem run_reported_bandwidth:
  assumes "2 \<le> NTIMES" and "j < 4"
    and "0 \<le> sint (main_buffer_size T E argv)" and "3 * sint (main_buffer_size T E argv) < 2 ^ 63"
  shows "let buffer_size = main_buffer_size T E argv;
             t = times (main_loop_times rdcycle NTIMES st0);
             minTime = Min ((\<lambda>k. t j k) ` {1..<NTIMES});
             bytesMoved = (if j < 2 then 2 else 3) * real_of_int (sint buffer_size)
         in rate (main_summary T E argv rdcycle NTIMES st0 ! j) = 1 / 10 ^ 6 * bytesMoved / minTime
          \<and> best (main_summary T E argv rdcycle NTIMES st0 ! j) = minTime
          \<and> (\<forall>k < NTIMES. t j k = mysecond (rdcycle (reads st0 + 8 * k + 2 * j + 1))
                                    - mysecond (rdcycle (reads st0 + 8 * k + 2 * j)))
          \<and> buffer_size AND 0xFFF = 0
          \<and> buffer_size \<noteq> 80000000"
  using reported_bandwidth [OF assms, of rdcycle st0]
    main_buffer_size_low_bits [of T E argv] main_buffer_size_not_80000000 [of T E argv]
  unfolding Let_def main_summary_def by blast

theorem run_reported_bandwidth_witness:
  "(2 :: nat) \<le> 2 \<and> (0 :: nat) < 4
   \<and> main_buffer_size real_double env1 [''stream'', ''80000000''] = 80003072
   \<and> 0 \<le> sint (80003072 :: 64 word) \<and> 3 * sint (80003072 :: 64 word) < 2 ^ 63
   \<and> times (main_loop_times centisecond_clock 2 \<lparr>reads = 0, times = (\<lambda>j k. 0)\<rparr>) 0 1 = 1 / 100
   \<and> rate (main_summary real_double env1 [''stream'', ''80000000''] centisecond_clock 2
         \<lparr>reads = 0, times = (\<lambda>j k. 0)\<rparr> ! 0) = 160006144 / 10000"
proof -
  have h1: "(2 :: nat) \<le> 2" and h2: "(0 :: nat) < 4"
    by simp_all
  have b: "main_buffer_size real_double env1 [''stream'', ''80000000''] = 80003072"
    by (simp add: main_buffer_size_def env1_def page_round_def)
  have h3: "0 \<le> sint (main_buffer_size real_double env1 [''stream'', ''80000000''])"
    and h4: "3 * sint (main_buffer_size real_double env1 [''stream'', ''80000000'']) < 2 ^ 63"
    unfolding b by simp_all
  let ?t = "times (main_loop_times centisecond_clock 2 \<lparr>reads = 0, times = (\<lambda>j k. 0)\<rparr>)"
  note th = run_reported_bandwidth [OF h1 h2 h3 h4, of centisecond_clock
      "\<lparr>reads = 0, times = (\<lambda>j k. 0)\<rparr>", unfolded Let_def]
  have l: "(1 :: nat) < 2"
    by simp
  have e: "?t 0 1 = mysecond (centisecond_clock (reads \<lparr>reads = 0, times = (\<lambda>j k. 0)\<rparr> + 8 * 1 + 2 * 0 + 1))
      - mysecond (centisecond_clock (reads \<lparr>reads = 0, times = (\<lambda>j k. 0)\<rparr> + 8 * 1 + 2 * 0))"
    by (rule th [THEN conjunct2, THEN conjunct2, THEN conjunct1, rule_format, OF l])
  have t1: "?t 0 1 = 1 / 100"
    unfolding e by (simp add: mysecond_def centisecond_clock_def CLOCK_PER_SEC_def)
  have "{1..<2 :: nat} = {1}"
    by (rule set_eqI) (simp, arith)
  then have "(\<lambda>k. ?t 0 k) ` {1..<2} = {?t 0 1}"
    by (simp only: image_insert image_empty)
  then have m: "Min ((\<lambda>k. ?t 0 k) ` {1..<2}) = 1 / 100"
    by (simp only: Min_singleton t1)
  have "rate (main_summary real_double env1 [''stream'', ''80000000''] centisecond_clock 2
         \<lparr>reads = 0, times = (\<lambda>j k. 0)\<rparr> ! 0)
      = 1 / 10 ^ 6 * ((if (0 :: nat) < 2 then 2 else 3)
          * real_of_int (sint (main_buffer_size real_double env1 [''stream'', ''80000000''])))
          / Min ((\<lambda>k. ?t 0 k) ` {1..<2})"
    by (rule th [THEN conjunct1])
  then have r: "rate (main_summary real_double env1 [''stream'', ''80000000''] centisecond_clock 2
         \<lparr>reads = 0, times = (\<lambda>j k. 0)\<rparr> ! 0) = 160006144 / 10000"
    unfolding m b by simp
  show ?thesis
    using b t1 r by simp
qed

theorem scenario_rate_of_run:
  "main_buffer_size real_double env1 [''stream'', ''80000000''] = 80003072
   \<and> main_buffer_size real_double env1 [''stream'', ''80000000''] div of_nat (sizeof real_double)
       = 10000384
   \<and> rate (main_summary real_double env1 [''stream'', ''80000000''] centisecond_clock 2
         \<lparr>reads = 0, times = (\<lambda>j k. 0)\<rparr> ! 0) = 160006144 / 10000
   \<and> rate (main_summary real_double env1 [''stream'', ''80000000''] centisecond_clock 2
         \<lparr>reads = 0, times = (\<lambda>j k. 0)\<rparr> ! 0) \<noteq> 16000"
proof -
  have b: "main_buffer_size real_double env1 [''stream'', ''80000000''] = 80003072"
    by (simp add: main_buffer_size_def env1_def page_round_def)
  have n: "(80003072 :: 64 word) div of_nat (sizeof real_double) = 10000384"
    by (simp add: real_double_def)
  have h3: "0 \<le> sint (80003072 :: 64 word)" and h4: "3 * sint (80003072 :: 64 word) < 2 ^ 63"
    by simp_all
  have r: "rate (main_summary real_double env1 [''stream'', ''80000000''] centisecond_clock 2
         \<lparr>reads = 0, times = (\<lambda>j k. 0)\<rparr> ! 0) = 160006144 / 10000"
    unfolding main_summary_def Let_def b centisecond_copy_rate [OF h3 h4] by simp
  show ?thesis
    unfolding r b n by simp
qed



section \<open>Failures of the device path\<close>

text \<open>
  Claim C6 says that a failed mapping is fatal: a diagnostic, then immediate termination.
  The code never tests what \<open>mmap\<close> returns. \<open>MAP_FAILED\<close> is not \<open>NULL\<close>, so
  the \<open>a == NULL\<close> tests after the mappings do not see it either. The run below has a
  device that opens and mappings that all fail: the program maps \<open>b\<close> and \<open>c\<close> after
  the failure for \<open>a\<close>, prints its configuration banner, and stops only at the fault of
  the first store through the failed pointer. No diagnostic is in the trace.
\<close>

theorem mmap_failure_unchecked:
  "main real_double 10 env_mmap_fails [''stream'', ''4096'', ''/dev/mem'']
   = ([Usage, Open ''/dev/mem'', Mmap 4096 3 0x100000000, Mmap 4096 3 0x100001000,
       Mmap 4096 3 0x100002000, Config 512], Segfault)"
  by (simp add: main_def main_body_def main_buffer_size_def main_offset_def env_mmap_fails_def
        env0_def page_round_def heap_alloc_def valid_ptr_def MAP_FAILED_def real_double_def Let_def)

text \<open>
  Claim C7. When a device path is given and \<open>open\<close> fails, the program prints the
  "is not opened" line and returns 0 at once: nothing is allocated or mapped, no kernel runs,
  nothing is validated. Every run that returns at all returns 0, and a run that reached
  \<open>checkSTREAMresults\<close> returns 0 whatever the validation found.
\<close>

theorem open_failure_exit_status:
  assumes "2 < length argv" and "sint (open_rdwr E (argv ! 2)) < 0"
  shows "main T NTIMES E argv = ([Usage, Open (argv ! 2), Not_opened (argv ! 1)], Exit 0)
       \<and> (\<forall>n. snd (main T NTIMES E' argv') = Exit n \<longrightarrow> n = 0)
       \<and> (\<forall>v. Check_results v \<in> set (fst (main T NTIMES E' argv'))
              \<longrightarrow> snd (main T NTIMES E' argv') = Exit 0)"
proof -
  have "main T NTIMES E argv = ([Usage, Open (argv ! 2), Not_opened (argv ! 1)], Exit 0)"
    using assms by (simp add: main_def Let_def)
  moreover have "\<forall>n. snd (main T NTIMES E' argv') = Exit n \<longrightarrow> n = 0"
    using main_outcome [of T NTIMES E' argv'] by auto
  ultimately show ?thesis
    using main_checked_exit [of _ T NTIMES E' argv'] by blast
qed

theorem open_failure_exit_status_witness:
  "2 < length [''stream'', ''4096'', ''/dev/null'']
   \<and> sint (open_rdwr env0 ([''stream'', ''4096'', ''/dev/null''] ! 2)) < 0
   \<and> main real_double 10 env0 [''stream'', ''4096'', ''/dev/null'']
       = ([Usage, Open ''/dev/null'', Not_opened ''4096''], Exit 0)
   \<and> (\<exists>v. Check_results v \<in> set (fst (main real_double 10 env0 [''stream''])))
   \<and> snd (main real_double 10 env0 [''stream'']) = Exit 0"
proof -
  have h1: "2 < length [''stream'', ''4096'', ''/dev/null'']" by simp
  have h2: "sint (open_rdwr env0 ([''stream'', ''4096'', ''/dev/null''] ! 2)) < 0"
    by (simp add: env0_def)
  have h3: "\<exists>v. Check_results v \<in> set (fst (main real_double 10 env0 [''stream'']))"
    by (simp add: main_def main_body_def main_buffer_size_def default_buffer_size_def
          STREAM_ARRAY_SIZE_def OFFSET_def env0_def page_round_def heap_alloc_def valid_ptr_def
          MAP_FAILED_def real_double_def teardown_def Let_def)
  show ?thesis
    using h1 h2 h3 open_failure_exit_status [OF h1 h2, of real_double 10 env0 "[''stream'']"]
    by auto
qed

section \<open>Teardown\<close>

text \<open>
  Claim C8 (as amended). A run whose buffers are device-backed (a device path is given, it
  opens with a descriptor above 0, and the three mappings succeed) completes with status 0
  and tears down exactly once, after the summary table and \<open>checkSTREAMresults\<close>: the
  three mapped regions are unmapped with \<open>munmap\<close> and the descriptor is closed, and
  nothing is released before. A run without arguments, whose buffers are heap-backed,
  releases nothing: the code has no \<open>free\<close>, and its \<open>munmap\<close>/\<open>close\<close> block is
  guarded by \<open>argc > 1\<close>.
\<close>

theorem device_teardown_once:
  assumes "2 < length argv"
    and "fid = open_rdwr E (argv ! 2)" and "0 < sint fid"
    and "byteSize = main_buffer_size T E argv" and "offset = main_offset E argv"
    and "pa = mmap E byteSize fid offset" and "valid_ptr pa"
    and "pb = mmap E byteSize fid (offset + byteSize)" and "valid_ptr pb"
    and "pc = mmap E byteSize fid (offset + 2 * byteSize)" and "valid_ptr pc"
  shows "snd (main T NTIMES E argv) = Exit 0
       \<and> (\<exists>v. fst (main T NTIMES E argv) =
              [Usage, Open (argv ! 2), Mmap byteSize fid offset, Mmap byteSize fid (offset + byteSize),
               Mmap byteSize fid (offset + 2 * byteSize),
               Config (byteSize div of_nat (sizeof T)), Kernels, Summary, Check_results v,
               Munmap pa byteSize, Munmap pb byteSize, Munmap pc byteSize, Close fid])
       \<and> (length argv' \<le> 1 \<longrightarrow> (\<forall>e \<in> set (fst (main T NTIMES E' argv')). \<not> is_release e))"
proof -
  have h: "heap_alloc E byteSize (pa, pb, pc) = ((pa, pb, pc), [])"
    using assms(7,9,11) by (simp add: heap_alloc_valid valid_ptr_nonzero)
  have f: "fid \<noteq> 0" and g: "\<not> sint fid < 0"
    using assms(3) by auto
  have b: "main_body T NTIMES E (length argv) byteSize fid (pa, pb, pc) =
      ([Config (byteSize div of_nat (sizeof T)), Kernels, Summary,
        Check_results (checkSTREAMresults T NTIMES (nat (sint (byteSize div of_nat (sizeof T))))
          (executor T NTIMES (nat (sint (byteSize div of_nat (sizeof T))))
             \<lparr>a = map (uninit_mem E) [0..<nat (sint (byteSize div of_nat (sizeof T)))],
              b = map (uninit_mem E) [0..<nat (sint (byteSize div of_nat (sizeof T)))],
              c = map (uninit_mem E) [0..<nat (sint (byteSize div of_nat (sizeof T)))]\<rparr>)),
        Munmap pa byteSize, Munmap pb byteSize, Munmap pc byteSize, Close fid], Exit 0)"
    using assms(1,7,9,11) f by (simp add: main_body_eq [OF h] teardown_def)
  have m: "main T NTIMES E argv =
      ([Usage, Open (argv ! 2), Mmap byteSize fid offset, Mmap byteSize fid (offset + byteSize),
        Mmap byteSize fid (offset + 2 * byteSize)]
         @ fst (main_body T NTIMES E (length argv) byteSize fid (pa, pb, pc)),
       snd (main_body T NTIMES E (length argv) byteSize fid (pa, pb, pc)))"
    using assms(1) g
    unfolding main_def Let_def assms(2,4,5,6,8,10) by (simp add: split_def)
  have "length argv' \<le> 1 \<longrightarrow> (\<forall>e \<in> set (fst (main T NTIMES E' argv')). \<not> is_release e)"
    using no_release_main_body [of "length argv'" T NTIMES E' "main_buffer_size T E' argv'" "uninit_fid E'" "(0, 0, 0)"]
    by (simp add: main_def Let_def split_def)
  then show ?thesis
    unfolding m b by simp
qed

theorem heap_run_releases_nothing:
  "snd (main real_double 10 env0 [''stream'']) = Exit 0
   \<and> filter is_release (fst (main real_double 10 env0 [''stream''])) = []
   \<and> filter is_release (fst (main real_double 10 env0 [''stream'', ''4096'']))
       = [Munmap 0x10000 4096, Munmap 0x11000 4096, Munmap 0x12000 4096, Close 0x5A5A]"
  by (simp add: main_def main_body_def main_buffer_size_def default_buffer_size_def
        STREAM_ARRAY_SIZE_def OFFSET_def env0_def page_round_def heap_alloc_def valid_ptr_def
        MAP_FAILED_def real_double_def teardown_def Let_def)


theorem device_teardown_once_witness:
  "2 < length [''stream'', ''4096'', ''/dev/mem'']
   \<and> 0 < sint (open_rdwr env0 ([''stream'', ''4096'', ''/dev/mem''] ! 2))
   \<and> valid_ptr (mmap env0 4096 3 0x100000000)
   \<and> valid_ptr (mmap env0 4096 3 0x100001000)
   \<and> valid_ptr (mmap env0 4096 3 0x100002000)
   \<and> length [''stream''] \<le> 1
   \<and> snd (main real_double 10 env0 [''stream'', ''4096'', ''/dev/mem'']) = Exit 0
   \<and> filter is_release (fst (main real_double 10 env0 [''stream'', ''4096'', ''/dev/mem'']))
       = [Munmap 0x7100000000 4096, Munmap 0x7100001000 4096, Munmap 0x7100002000 4096, Close 3]
   \<and> filter is_release (fst (main real_double 10 env0 [''stream''])) = []"
proof -
  have h1: "2 < length [''stream'', ''4096'', ''/dev/mem'']"
    by simp
  have h2: "(3 :: 32 word) = open_rdwr env0 ([''stream'', ''4096'', ''/dev/mem''] ! 2)"
    by (simp add: env0_def)
  have h3: "0 < sint (3 :: 32 word)"
    by simp
  have h4: "(4096 :: 64 word) = main_buffer_size real_double env0 [''stream'', ''4096'', ''/dev/mem'']"
    by (simp add: main_buffer_size_def env0_def page_round_def)
  have h5: "(0x100000000 :: 64 word) = main_offset env0 [''stream'', ''4096'', ''/dev/mem'']"
    by (simp add: main_offset_def env0_def)
  have h6: "(0x7100000000 :: 64 word) = mmap env0 4096 3 0x100000000"
    and h7: "(0x7100001000 :: 64 word) = mmap env0 4096 3 (0x100000000 + 4096)"
    and h8: "(0x7100002000 :: 64 word) = mmap env0 4096 3 (0x100000000 + 2 * 4096)"
    by (simp_all add: env0_def)
  have v: "valid_ptr (0x7100000000 :: 64 word)" "valid_ptr (0x7100001000 :: 64 word)"
    "valid_ptr (0x7100002000 :: 64 word)"
    by (simp_all add: valid_ptr_def MAP_FAILED_def)
  have l: "length [''stream''] \<le> 1"
    by simp
  show ?thesis
    using h1 h3 l v
      device_teardown_once [OF h1 h2 h3 h4 h5 h6 v(1) h7 v(2) h8 v(3),
        of 10 "[''stream'']" env0]
    by (auto simp: env0_def valid_ptr_def MAP_FAILED_def filter_empty_conv)
qed

section \<open>Clock granularity\<close>





end
